theory Spec2Isabelle
  imports Complex_Main
begin

section \<open>Logistic regression trained by mini-batch SGD (code/logistic\_sgd.py)\<close>

text \<open>
  The embedding follows the Python source. Python's \<open>int\<close> is \<open>int\<close>; a matrix is the
  list of its rows; a float is the real number it stands for. Inside the expressions
  Theano compiles (the classifier, its loss and its gradient) the arithmetic is the
  exact one: what is stated of their values is what rounding leaves in place, equations
  up to rounding and bounds that are not strict (an exponential can round to 0, so a
  probability that is positive in the reals can be 0 in the program). The training loop decides by comparing floats it has computed itself, and
  there rounding can change the decision: the two operations of the loop that round,
  \<open>numpy.mean\<close> of a non-empty list and the product of two floats, are parameters of
  the model (the record \<open>numerics\<close>), and what the theorems need of them is stated as
  a hypothesis. The two floating-point values that steer the loop without being
  numbers, \<open>float('inf')\<close> and the \<open>nan\<close> that \<open>numpy.mean\<close> returns on an empty
  list, are values of the type \<open>pyfloat\<close>.
\<close>

subsection \<open>Errors and Python floats\<close>

datatype error = TypeError | NotImplementedError | NameError string

datatype pyfloat = Fin real | PosInf | NegInf | NaN

text \<open>\<open>a < b\<close> on Python floats: every comparison with \<open>nan\<close> is false.\<close>

fun py_less :: "pyfloat \<Rightarrow> pyfloat \<Rightarrow> bool" where
  "py_less NaN _ = False"
| "py_less _ NaN = False"
| "py_less (Fin a) (Fin c) = (a < c)"
| "py_less (Fin a) PosInf = True"
| "py_less (Fin a) NegInf = False"
| "py_less PosInf _ = False"
| "py_less NegInf NegInf = False"
| "py_less NegInf _ = True"

text \<open>The floating-point arithmetic of the loop: \<open>np_mean\<close> is what \<open>numpy.mean\<close>
  returns on a non-empty list of floats, \<open>fl_mul\<close> the product of two floats as the
  machine rounds it. \<open>exact_numerics\<close> is the arithmetic that does not round.\<close>

record numerics =
  np_mean :: "real list \<Rightarrow> real"
  fl_mul :: "real \<Rightarrow> real \<Rightarrow> real"

definition exact_numerics :: numerics where
  "exact_numerics = \<lparr>np_mean = (\<lambda>xs. sum_list xs / real (length xs)), fl_mul = (\<lambda>a c. a * c)\<rparr>"

text \<open>What the theorems about \<open>patience\<close> use of the arithmetic. Both properties hold of
  IEEE doubles rounded to nearest: a mean of floats between 0 and 1 is not negative; and
  for \<open>0 \<le> a\<close> and \<open>0 \<le> c \<le> 1\<close> the exact product is at most \<open>a\<close>, which is a float, so
  the rounded product is at most \<open>a\<close> too.\<close>

definition sound_numerics :: "numerics \<Rightarrow> bool" where
  "sound_numerics nm \<longleftrightarrow>
     (\<forall>xs. xs \<noteq> [] \<and> (\<forall>x\<in>set xs. 0 \<le> x \<and> x \<le> 1) \<longrightarrow> 0 \<le> np_mean nm xs)
     \<and> (\<forall>a c. 0 \<le> a \<and> 0 \<le> c \<and> c \<le> 1 \<longrightarrow> fl_mul nm a c \<le> a)"

text \<open>\<open>a * c\<close> for a Python float \<open>a\<close> and a finite factor \<open>c\<close>.\<close>

fun py_times :: "numerics \<Rightarrow> pyfloat \<Rightarrow> real \<Rightarrow> pyfloat" where
  "py_times nm (Fin a) c = Fin (fl_mul nm a c)"
| "py_times nm NaN c = NaN"
| "py_times nm PosInf c = (if 0 < c then PosInf else if c < 0 then NegInf else NaN)"
| "py_times nm NegInf c = (if 0 < c then NegInf else if c < 0 then PosInf else NaN)"

text \<open>\<open>numpy.mean\<close> of a Python list of finite floats: \<open>nan\<close> on the empty list.\<close>

definition numpy_mean :: "numerics \<Rightarrow> real list \<Rightarrow> pyfloat" where
  "numpy_mean nm xs = (if xs = [] then NaN else Fin (np_mean nm xs))"

subsection \<open>Slices and mini-batches\<close>

text \<open>\<open>xs[i:j]\<close> for \<open>0 \<le> i\<close> and \<open>0 \<le> j\<close>: a slice never raises, it is cut at the end
  of the list.\<close>

definition slice :: "'a list \<Rightarrow> int \<Rightarrow> int \<Rightarrow> 'a list" where
  "slice xs i j = take (nat (j - i)) (drop (nat i) xs)"

text \<open>\<open>xrange(n)\<close>: the integers \<open>0, ..., n - 1\<close>, none when \<open>n \<le> 0\<close>.\<close>

definition xrange :: "int \<Rightarrow> int list" where
  "xrange n = [0..n - 1]"

definition batch_size :: int where
  "batch_size = 500"

text \<open>\<open>set_x.value.shape[0] / batch_size\<close>: the division of two Python 2 integers.\<close>

definition n_batches :: "'a list \<Rightarrow> int" where
  "n_batches set_x = int (length set_x) div batch_size"


subsection \<open>The tensor operations the source calls\<close>

text \<open>
  Theano and numpy are not part of the repository; their operations are written here as
  their documentation gives them, on well-shaped arguments. On ill-shaped arguments
  (rows of the wrong length, a label outside the row, an empty row for \<open>argmax\<close>)
  the library raises at run time and the run ends there; the functions below are total
  and return some list instead, so the theorems about values state the shapes they
  need, and the theorems about the loop describe the runs that no library call ends.
\<close>

definition ncols :: "'a list list \<Rightarrow> nat" where
  "ncols M = (case M of [] \<Rightarrow> 0 | r # _ \<Rightarrow> length r)"

text \<open>\<open>T.dot(A, B)\<close>, the matrix product.\<close>

definition dot :: "real list list \<Rightarrow> real list list \<Rightarrow> real list list" where
  "dot A B = map (\<lambda>row. map (\<lambda>j. (\<Sum>k\<leftarrow>[0..<length B]. row ! k * B ! k ! j)) [0..<ncols B]) A"

text \<open>\<open>M + v\<close> for a matrix and a vector: the vector is added to every row.\<close>

definition add_row :: "real list list \<Rightarrow> real list \<Rightarrow> real list list" where
  "add_row M v = map (\<lambda>row. map2 (+) row v) M"

text \<open>\<open>T.nnet.softmax\<close>, row by row, as in the module's docstring:
  \<open>softmax_i(z) = e^{z_i} / \<Sum>_j e^{z_j}\<close>.\<close>

definition softmax :: "real list list \<Rightarrow> real list list" where
  "softmax M = map (\<lambda>row. map (\<lambda>v. exp v / (\<Sum>u\<leftarrow>row. exp u)) row) M"

text \<open>\<open>argmax\<close> of one row: a scan from the left that moves only to a strictly larger
  entry. \<open>argmax_from xs i m mi\<close> scans \<open>xs\<close>, whose first entry has index \<open>i\<close>,
  with the largest entry \<open>m\<close> seen so far, found at index \<open>mi\<close>.\<close>

fun argmax_from :: "real list \<Rightarrow> nat \<Rightarrow> real \<Rightarrow> nat \<Rightarrow> nat" where
  "argmax_from [] i m mi = mi"
| "argmax_from (x # xs) i m mi =
     (if m < x then argmax_from xs (Suc i) x i else argmax_from xs (Suc i) m mi)"

definition argmax :: "real list \<Rightarrow> nat" where
  "argmax row = (case row of [] \<Rightarrow> 0 | x # xs \<Rightarrow> argmax_from xs 1 x 0)"

text \<open>\<open>T.argmax(M, axis=1)\<close>.\<close>

definition T_argmax :: "real list list \<Rightarrow> int list" where
  "T_argmax M = map (\<lambda>row. int (argmax row)) M"

definition T_log :: "real list list \<Rightarrow> real list list" where
  "T_log M = map (map ln) M"

definition T_mean :: "real list \<Rightarrow> real" where
  "T_mean xs = sum_list xs / real (length xs)"

text \<open>An index \<open>j\<close> into an axis of length \<open>n\<close>: a negative index counts from the end.\<close>

definition py_index :: "nat \<Rightarrow> int \<Rightarrow> nat" where
  "py_index n j = nat (if j < 0 then j + int n else j)"

text \<open>\<open>M[T.arange(y.shape[0]), y]\<close>: entry \<open>y[i]\<close> of row \<open>i\<close>, for every position
  \<open>i\<close> of \<open>y\<close>.\<close>

definition adv_index :: "real list list \<Rightarrow> int list \<Rightarrow> real list" where
  "adv_index M y = map (\<lambda>i. M ! i ! py_index (length (M ! i)) (y ! i)) [0..<length y]"

text \<open>\<open>T.neq(u, v)\<close>: 1 where the entries differ, 0 where they agree.\<close>

definition T_neq :: "int list \<Rightarrow> int list \<Rightarrow> real list" where
  "T_neq u v = map2 (\<lambda>p q. if p \<noteq> q then 1 else 0) u v"

text \<open>\<open>x.reshape((r, c))\<close>: the entries in row-major order, cut into \<open>r\<close> rows of
  \<open>c\<close>.\<close>

definition reshape :: "nat \<Rightarrow> nat \<Rightarrow> real list list \<Rightarrow> real list list" where
  "reshape r c M = map (\<lambda>i. take c (drop (i * c) (concat M))) [0..<r]"

text \<open>\<open>A - c * G\<close> on matrices and on vectors.\<close>

definition vec_step :: "real list \<Rightarrow> real \<Rightarrow> real list \<Rightarrow> real list" where
  "vec_step v c g = map2 (\<lambda>p q. p - c * q) v g"

definition mat_step :: "real list list \<Rightarrow> real \<Rightarrow> real list list \<Rightarrow> real list list" where
  "mat_step A c G = map2 (\<lambda>r g. vec_step r c g) A G"

text \<open>\<open>T.grad(cost, v)\<close>: the array of the partial derivatives of the scalar \<open>cost\<close>
  with respect to the entries of \<open>v\<close>, of the shape of \<open>v\<close>. \<open>partial f x\<close> is the
  derivative of \<open>f\<close> at \<open>x\<close>.\<close>

definition partial :: "(real \<Rightarrow> real) \<Rightarrow> real \<Rightarrow> real" where
  "partial f x = (THE d. (f has_real_derivative d) (at x))"

definition T_grad_matrix :: "(real list list \<Rightarrow> real) \<Rightarrow> real list list \<Rightarrow> real list list" where
  "T_grad_matrix cost A =
     map (\<lambda>k. map (\<lambda>c. partial (\<lambda>w. cost (A[k := (A ! k)[c := w]])) (A ! k ! c))
                 [0..<length (A ! k)])
         [0..<length A]"

definition T_grad_vector :: "(real list \<Rightarrow> real) \<Rightarrow> real list \<Rightarrow> real list" where
  "T_grad_vector cost v = map (\<lambda>c. partial (\<lambda>w. cost (v[c := w])) (v ! c)) [0..<length v]"

subsection \<open>class LogisticRegression\<close>

record LogisticRegression =
  W :: "real list list"
  b :: "real list"

text \<open>\<open>__init__\<close>: \<open>W\<close> is the zero matrix of shape \<open>(n_in, n_out)\<close>, \<open>b\<close> the zero
  vector of length \<open>n_out\<close>.\<close>

definition LogisticRegression_init :: "nat \<Rightarrow> nat \<Rightarrow> LogisticRegression" where
  "LogisticRegression_init n_in n_out =
     \<lparr>W = replicate n_in (replicate n_out 0), b = replicate n_out 0\<rparr>"

text \<open>The symbolic attributes \<open>p_y_given_x\<close> and \<open>y_pred\<close>, as functions of the
  parameters and of the value of \<open>input\<close>.\<close>

definition p_y_given_x :: "'a LogisticRegression_scheme \<Rightarrow> real list list \<Rightarrow> real list list" where
  "p_y_given_x self input = softmax (add_row (dot input (W self)) (b self))"

definition y_pred :: "'a LogisticRegression_scheme \<Rightarrow> real list list \<Rightarrow> int list" where
  "y_pred self input = T_argmax (p_y_given_x self input)"

definition negative_log_likelihood ::
  "'a LogisticRegression_scheme \<Rightarrow> real list list \<Rightarrow> int list \<Rightarrow> real" where
  "negative_log_likelihood self input y =
     - T_mean (adv_index (T_log (p_y_given_x self input)) y)"

text \<open>The type of a symbolic variable: its number of dimensions and its dtype.
  \<open>y_pred\<close> is the \<open>argmax\<close> along axis 1 of a matrix: an \<open>int64\<close> vector.\<close>

record ttype =
  ndim :: nat
  dtype :: string

definition y_pred_type :: ttype where
  "y_pred_type = \<lparr>ndim = 1, dtype = ''int64''\<rparr>"

definition startswith :: "string \<Rightarrow> string \<Rightarrow> bool" where
  "startswith s p = (take (length p) s = p)"

text \<open>\<open>errors(self, y)\<close>, for a variable \<open>y\<close> of type \<open>y_type\<close> and value \<open>y\<close>. In the
  first branch the source evaluates the arguments of \<open>TypeError(...)\<close> before it can
  raise; the second argument reads \<open>target.type\<close>, and no variable \<open>target\<close> is bound
  in the method or in the module, so the evaluation ends in \<open>NameError\<close>.\<close>

definition errors ::
  "'a LogisticRegression_scheme \<Rightarrow> real list list \<Rightarrow> ttype \<Rightarrow> int list \<Rightarrow> error + real" where
  "errors self input y_type y =
     (if ndim y_type \<noteq> ndim y_pred_type then Inl (NameError ''target'')
      else if startswith (dtype y_type) ''int'' then Inr (T_mean (T_neq (y_pred self input) y))
      else Inl NotImplementedError)"

subsection \<open>sgd\_optimization\_mnist: the shared variables and the compiled functions\<close>

text \<open>
  The shared variables of the run: the parameters of the classifier and the three
  splits, each the pair that \<open>shared_dataset\<close> returns (the features, and the labels
  after \<open>T.cast(shared_y, 'int32')\<close>). The compiled functions read and write this store
  and nothing else.
\<close>

record store = LogisticRegression +
  train_set_x :: "real list list"
  train_set_y :: "int list"
  valid_set_x :: "real list list"
  valid_set_y :: "int list"
  test_set_x :: "real list list"
  test_set_y :: "int list"

text \<open>The symbolic label vector \<open>y = T.ivector('y')\<close>.\<close>

definition ivector :: ttype where
  "ivector = \<lparr>ndim = 1, dtype = ''int32''\<rparr>"

text \<open>The input of the classifier: \<open>x.reshape((batch_size, 28*28))\<close>, with \<open>x\<close> given as
  the slice \<open>set_x[minibatch_offset : minibatch_offset + batch_size]\<close>.\<close>

definition minibatch_x :: "real list list \<Rightarrow> int \<Rightarrow> real list list" where
  "minibatch_x set_x minibatch_offset =
     reshape (nat batch_size) (28 * 28) (slice set_x minibatch_offset (minibatch_offset + batch_size))"

definition minibatch_y :: "int list \<Rightarrow> int \<Rightarrow> int list" where
  "minibatch_y set_y minibatch_offset = slice set_y minibatch_offset (minibatch_offset + batch_size)"

text \<open>\<open>test_model\<close> and \<open>validate_model\<close> compute the expression that
  \<open>classifier.errors(y)\<close> returns for \<open>y = T.ivector('y')\<close> (lemma \<open>errors_ivector\<close>:
  both checks pass), on the mini-batch at the offset.\<close>

definition test_model :: "'a store_scheme \<Rightarrow> int \<Rightarrow> real" where
  "test_model s minibatch_offset =
     T_mean (T_neq (y_pred s (minibatch_x (test_set_x s) minibatch_offset))
                   (minibatch_y (test_set_y s) minibatch_offset))"

definition validate_model :: "'a store_scheme \<Rightarrow> int \<Rightarrow> real" where
  "validate_model s minibatch_offset =
     T_mean (T_neq (y_pred s (minibatch_x (valid_set_x s) minibatch_offset))
                   (minibatch_y (valid_set_y s) minibatch_offset))"

text \<open>\<open>train_model\<close>: the value of \<open>cost\<close>, and the store after \<open>updates\<close>. Theano
  evaluates the output and every update expression on the values the shared variables
  have when the function is called, then assigns.\<close>

definition train_model :: "real \<Rightarrow> 'a store_scheme \<Rightarrow> int \<Rightarrow> real \<times> 'a store_scheme" where
  "train_model learning_rate s minibatch_offset =
     (let x = minibatch_x (train_set_x s) minibatch_offset;
          y = minibatch_y (train_set_y s) minibatch_offset;
          cost = (\<lambda>self. negative_log_likelihood self x y);
          g_W = T_grad_matrix (\<lambda>A. cost (s\<lparr>W := A\<rparr>)) (W s);
          g_b = T_grad_vector (\<lambda>v. cost (s\<lparr>b := v\<rparr>)) (b s)
      in (cost s, s\<lparr>W := mat_step (W s) learning_rate g_W,
                    b := vec_step (b s) learning_rate g_b\<rparr>))"

subsection \<open>sgd\_optimization\_mnist: the training loop\<close>

text \<open>The local variables of the loop that outlive an iteration, on top of the store.
  The \<open>print\<close> statements are left out.\<close>

record state = store +
  patience :: int
  best_params :: "(real list list \<times> real list) option"
  best_validation_loss :: pyfloat
  test_score :: pyfloat

definition patience_increase :: int where
  "patience_increase = 2"

definition improvement_threshold :: real where
  "improvement_threshold = 0.995"

text \<open>The validation loss the loop computes on a store: the \<open>numpy.mean\<close> of
  \<open>validate_model\<close> over the validation mini-batches; and the same on the test split.\<close>

definition validation_loss :: "numerics \<Rightarrow> 'a store_scheme \<Rightarrow> pyfloat" where
  "validation_loss nm s =
     (let n_valid_batches = n_batches (valid_set_x s);
          validation_losses = map (\<lambda>i. validate_model s (i * batch_size)) (xrange n_valid_batches)
      in numpy_mean nm validation_losses)"

definition test_loss :: "numerics \<Rightarrow> 'a store_scheme \<Rightarrow> pyfloat" where
  "test_loss nm s =
     (let n_test_batches = n_batches (test_set_x s);
          test_losses = map (\<lambda>i. test_model s (i * batch_size)) (xrange n_test_batches)
      in numpy_mean nm test_losses)"

text \<open>The body of the loop, up to the test \<open>patience <= iter\<close>.\<close>

definition iteration :: "numerics \<Rightarrow> real \<Rightarrow> int \<Rightarrow> state \<Rightarrow> int \<Rightarrow> state" where
  "iteration nm learning_rate n_minibatches s iter =
     (let validation_frequency = n_minibatches;
          minibatch_index = iter mod n_minibatches;
          minibatch_offset = minibatch_index * batch_size;
          s1 = snd (train_model learning_rate s minibatch_offset)
      in if (iter + 1) mod validation_frequency = 0 then
           (let this_validation_loss = validation_loss nm s1
            in if py_less this_validation_loss (best_validation_loss s1) then
                 (let s2 = (if py_less this_validation_loss
                                  (py_times nm (best_validation_loss s1) improvement_threshold)
                            then s1\<lparr>patience := max (patience s1) (iter * patience_increase)\<rparr>
                            else s1);
                      s3 = s2\<lparr>best_validation_loss := this_validation_loss\<rparr>
                  in s3\<lparr>test_score := test_loss nm s3\<rparr>)
               else s1)
         else s1)"

text \<open>\<open>for iter in xrange(...)\<close> with its \<open>break\<close>: the state when the loop is left.\<close>

fun for_loop :: "numerics \<Rightarrow> real \<Rightarrow> int \<Rightarrow> state \<Rightarrow> int list \<Rightarrow> state" where
  "for_loop nm learning_rate n_minibatches s [] = s"
| "for_loop nm learning_rate n_minibatches s (iter # rest) =
     (let s' = iteration nm learning_rate n_minibatches s iter
      in if patience s' \<le> iter then s' else for_loop nm learning_rate n_minibatches s' rest)"

text \<open>The iterations the same loop executes, in order: the index, the state before the
  body and the state after it.\<close>

fun executed ::
  "numerics \<Rightarrow> real \<Rightarrow> int \<Rightarrow> state \<Rightarrow> int list \<Rightarrow> (int \<times> state \<times> state) list" where
  "executed nm learning_rate n_minibatches s [] = []"
| "executed nm learning_rate n_minibatches s (iter # rest) =
     (let s' = iteration nm learning_rate n_minibatches s iter
      in (iter, s, s') #
         (if patience s' \<le> iter then [] else executed nm learning_rate n_minibatches s' rest))"

text \<open>The state before the loop: the classifier is \<open>LogisticRegression(input, 28*28, 10)\<close>.\<close>

type_synonym dataset = "real list list \<times> int list"

definition initial_state :: "dataset \<Rightarrow> dataset \<Rightarrow> dataset \<Rightarrow> state" where
  "initial_state train_set valid_set test_set =
     (let classifier = LogisticRegression_init (28 * 28) 10
      in \<lparr>W = W classifier, b = b classifier,
          train_set_x = fst train_set, train_set_y = snd train_set,
          valid_set_x = fst valid_set, valid_set_y = snd valid_set,
          test_set_x = fst test_set, test_set_y = snd test_set,
          patience = 5000, best_params = None,
          best_validation_loss = PosInf, test_score = Fin 0\<rparr>)"

definition n_minibatches_of :: "dataset \<Rightarrow> int" where
  "n_minibatches_of train_set = n_batches (fst train_set)"

text \<open>The run. Its inputs are the two parameters \<open>learning_rate\<close> and \<open>n_iter\<close>, the
  three splits that \<open>cPickle.load\<close> returns, the two readings of \<open>time.clock()\<close>, and
  the arithmetic of the machine; its results are the state after the loop and the
  minutes the final line reports.\<close>

definition sgd_optimization_mnist ::
  "numerics \<Rightarrow> real \<Rightarrow> int \<Rightarrow> dataset \<times> dataset \<times> dataset \<Rightarrow> real \<times> real \<Rightarrow> state \<times> real" where
  "sgd_optimization_mnist nm learning_rate n_iter pkl clock =
     (case pkl of (train_set, valid_set, test_set) \<Rightarrow>
      case clock of (start_time, end_time) \<Rightarrow>
        (let n_minibatches = n_minibatches_of train_set;
             s = for_loop nm learning_rate n_minibatches
                   (initial_state train_set valid_set test_set)
                   (xrange (n_iter * n_minibatches))
         in (s, (end_time - start_time) / 60)))"

text \<open>The iterations of the run, by the same loop.\<close>

definition sgd_iterations ::
  "numerics \<Rightarrow> real \<Rightarrow> int \<Rightarrow> dataset \<times> dataset \<times> dataset \<Rightarrow> (int \<times> state \<times> state) list" where
  "sgd_iterations nm learning_rate n_iter pkl =
     (case pkl of (train_set, valid_set, test_set) \<Rightarrow>
        executed nm learning_rate (n_minibatches_of train_set)
          (initial_state train_set valid_set test_set)
          (xrange (n_iter * n_minibatches_of train_set)))"

subsection \<open>Splits that differ in an incomplete last batch\<close>




subsection \<open>The gradient in closed form\<close>

text \<open>
  The specification gives the gradient of the loss in closed form, for a batch \<open>X\<close>, the
  probabilities \<open>P\<close> and the one-hot matrix \<open>Y\<close> of the labels:
  \<open>\<partial>loss/\<partial>W = X\<^sup>T (P - Y) / batch_size\<close>, and \<open>\<partial>loss/\<partial>b\<close> the column mean of \<open>P - Y\<close>.
  These definitions follow the specification, not the source; \<open>batch_size\<close> is the number
  of rows of \<open>X\<close>.
\<close>

definition one_hot :: "nat \<Rightarrow> int list \<Rightarrow> real list list" where
  "one_hot K y = map (\<lambda>l. map (\<lambda>c. if int c = l then 1 else 0) [0..<K]) y"

definition mat_transpose :: "real list list \<Rightarrow> real list list" where
  "mat_transpose M = map (\<lambda>j. map (\<lambda>row. row ! j) M) [0..<ncols M]"

definition mat_sub :: "real list list \<Rightarrow> real list list \<Rightarrow> real list list" where
  "mat_sub A B = map2 (map2 (-)) A B"

definition spec_grad_W :: "real list list \<Rightarrow> real list list \<Rightarrow> real list list \<Rightarrow> real list list" where
  "spec_grad_W X P Y =
     map (map (\<lambda>v. v / real (length X))) (dot (mat_transpose X) (mat_sub P Y))"

definition spec_grad_b :: "real list list \<Rightarrow> real list list \<Rightarrow> real list" where
  "spec_grad_b P Y = map (\<lambda>c. T_mean (map (\<lambda>row. row ! c) (mat_sub P Y))) [0..<ncols P]"

section \<open>Lemmas\<close>


lemma xrange_length: "length (xrange n) = nat n"
  by (simp add: xrange_def)

subsection \<open>The iterations of the loop\<close>

lemma executed_fst: "map fst (executed nm lr n s its) = take (length (executed nm lr n s its)) its"
  by (induction its arbitrary: s) (auto simp: Let_def)

lemma executed_length: "length (executed nm lr n s its) \<le> length its"
  by (induction its arbitrary: s) (auto simp: Let_def)

lemma executed_nonempty: "its \<noteq> [] \<Longrightarrow> executed nm lr n s its \<noteq> []"
  by (cases its) (auto simp: Let_def)

lemma for_loop_executed:
  "for_loop nm lr n s its =
     (if executed nm lr n s its = [] then s else snd (snd (last (executed nm lr n s its))))"
  by (induction its arbitrary: s) (auto simp: Let_def)

lemma executed_step: "j < length (executed nm lr n s its) \<Longrightarrow>
   snd (snd (executed nm lr n s its ! j)) = iteration nm lr n (fst (snd (executed nm lr n s its ! j))) (fst (executed nm lr n s its ! j))"
proof (induction its arbitrary: s j)
  case Nil then show ?case by simp
next
  case (Cons i its)
  then show ?case by (cases j) (auto simp: Let_def split: if_splits)
qed

lemma executed_chain: "Suc j < length (executed nm lr n s its) \<Longrightarrow>
   fst (snd (executed nm lr n s its ! Suc j)) = snd (snd (executed nm lr n s its ! j))"
proof (induction its arbitrary: s j)
  case Nil then show ?case by simp
next
  case (Cons i its)
  show ?case
  proof (cases j)
    case 0
    with Cons.prems show ?thesis by (cases its) (auto simp: Let_def split: if_splits)
  next
    case (Suc k)
    with Cons show ?thesis by (auto simp: Let_def split: if_splits)
  qed
qed

lemma executed_first: "executed nm lr n s its \<noteq> [] \<Longrightarrow> fst (snd (executed nm lr n s its ! 0)) = s"
  by (cases its) (auto simp: Let_def)

lemma executed_continue: "Suc j < length (executed nm lr n s its) \<Longrightarrow>
   \<not> patience (snd (snd (executed nm lr n s its ! j))) \<le> fst (executed nm lr n s its ! j)"
proof (induction its arbitrary: s j)
  case Nil then show ?case by simp
next
  case (Cons i its)
  then show ?case by (cases j) (auto simp: Let_def split: if_splits)
qed

lemma executed_last: "executed nm lr n s its \<noteq> [] \<Longrightarrow>
   patience (snd (snd (last (executed nm lr n s its)))) \<le> fst (last (executed nm lr n s its))
   \<or> length (executed nm lr n s its) = length its"
proof (induction its arbitrary: s)
  case Nil then show ?case by simp
next
  case (Cons i its)
  then show ?case by (cases its) (auto simp: Let_def split: if_splits)
qed

lemma xrange_nth: "j < nat n \<Longrightarrow> xrange n ! j = int j"
  by (simp add: xrange_def)

lemma xrange_take: "k \<le> nat n \<Longrightarrow> take k (xrange n) = xrange (int k)"
  by (rule nth_equalityI) (auto simp: xrange_length xrange_nth)

lemma executed_xrange_fst:
  "map fst (executed nm lr n s (xrange N)) = xrange (int (length (executed nm lr n s (xrange N))))"
  using executed_length [of nm lr n s "xrange N"]
  by (simp add: executed_fst xrange_take xrange_length)

lemma executed_xrange_nth:
  assumes "j < length (executed nm lr n s (xrange N))"
  shows "fst (executed nm lr n s (xrange N) ! j) = int j"
proof -
  have "fst (executed nm lr n s (xrange N) ! j) = map fst (executed nm lr n s (xrange N)) ! j"
    using assms by simp
  also have "\<dots> = int j"
    using assms by (simp only: executed_xrange_fst) (simp add: xrange_nth)
  finally show ?thesis .
qed

subsection \<open>The training step and the body of the loop\<close>

lemma train_model_more: "store.more (snd (train_model lr s off)) = store.more s"
  by (simp add: train_model_def Let_def)

lemma train_model_sets:
  "train_set_x (snd (train_model lr s off)) = train_set_x s"
  "train_set_y (snd (train_model lr s off)) = train_set_y s"
  "valid_set_x (snd (train_model lr s off)) = valid_set_x s"
  "valid_set_y (snd (train_model lr s off)) = valid_set_y s"
  "test_set_x (snd (train_model lr s off)) = test_set_x s"
  "test_set_y (snd (train_model lr s off)) = test_set_y s"
  by (simp_all add: train_model_def Let_def)

lemma train_model_counters:
  fixes t :: state
  shows "patience (snd (train_model lr t off)) = patience t"
    "best_validation_loss (snd (train_model lr t off)) = best_validation_loss t"
    "test_score (snd (train_model lr t off)) = test_score t"
    "best_params (snd (train_model lr t off)) = best_params t"
  by (simp_all add: train_model_def Let_def)

lemma iteration_sets:
  "valid_set_x (iteration nm lr n s iter) = valid_set_x s"
  "valid_set_y (iteration nm lr n s iter) = valid_set_y s"
  "train_set_x (iteration nm lr n s iter) = train_set_x s"
  "train_set_y (iteration nm lr n s iter) = train_set_y s"
  "test_set_x (iteration nm lr n s iter) = test_set_x s"
  "test_set_y (iteration nm lr n s iter) = test_set_y s"
  by (simp_all add: iteration_def Let_def train_model_sets)

lemma iteration_patience:
  "patience (iteration nm lr n s iter) =
     (if (iter + 1) mod n = 0
         \<and> py_less (validation_loss nm (snd (train_model lr s (iter mod n * batch_size))))
              (best_validation_loss s)
         \<and> py_less (validation_loss nm (snd (train_model lr s (iter mod n * batch_size))))
              (py_times nm (best_validation_loss s) improvement_threshold)
      then max (patience s) (iter * patience_increase) else patience s)"
  by (simp add: iteration_def Let_def train_model_counters)

lemma iteration_patience_mono: "patience s \<le> patience (iteration nm lr n s iter)"
  by (simp add: iteration_patience)

lemma iteration_best:
  "best_validation_loss (iteration nm lr n s iter) = best_validation_loss s
   \<or> best_validation_loss (iteration nm lr n s iter) =
       validation_loss nm (snd (train_model lr s (iter mod n * batch_size)))"
  by (simp add: iteration_def Let_def train_model_counters)

lemma T_mean_nonneg: "(\<And>x. x \<in> set xs \<Longrightarrow> 0 \<le> x) \<Longrightarrow> 0 \<le> T_mean xs"
  by (simp add: T_mean_def sum_list_nonneg)

lemma T_mean_le_one:
  assumes "\<And>x. x \<in> set xs \<Longrightarrow> x \<le> 1"
  shows "T_mean xs \<le> 1"
proof (cases "xs = []")
  case True
  then show ?thesis by (simp add: T_mean_def)
next
  case False
  have "sum_list xs \<le> real (length xs)"
    using sum_list_mono [of xs "\<lambda>x. x" "\<lambda>_. 1"] assms by (simp add: sum_list_triv)
  with False show ?thesis by (simp add: T_mean_def field_simps)
qed

lemma T_neq_range: "x \<in> set (T_neq u v) \<Longrightarrow> 0 \<le> x \<and> x \<le> 1"
  by (auto simp: T_neq_def)

lemma validate_model_range: "0 \<le> validate_model s off \<and> validate_model s off \<le> 1"
  unfolding validate_model_def
  by (intro conjI T_mean_nonneg T_mean_le_one) (simp_all add: T_neq_range)

lemma validate_model_nonneg: "0 \<le> validate_model s off"
  by (simp add: validate_model_range)

lemma validation_loss_cases:
  assumes "sound_numerics nm"
  shows "validation_loss nm s = NaN \<or> (\<exists>v. 0 \<le> v \<and> validation_loss nm s = Fin v)"
proof -
  let ?ls = "map (\<lambda>i. validate_model s (i * batch_size)) (xrange (n_batches (valid_set_x s)))"
  have "0 \<le> np_mean nm ?ls" if "?ls \<noteq> []"
  proof -
    have "\<forall>x\<in>set ?ls. 0 \<le> x \<and> x \<le> 1" by (auto simp: validate_model_range)
    with assms that show ?thesis unfolding sound_numerics_def by blast
  qed
  then show ?thesis
    by (auto simp: validation_loss_def Let_def numpy_mean_def simp del: length_map)
qed

lemma threshold_implies_less:
  assumes "sound_numerics nm"
    and "p = PosInf \<or> (\<exists>c. 0 \<le> c \<and> p = Fin c)"
    and "py_less (validation_loss nm s) (py_times nm p improvement_threshold)"
  shows "py_less (validation_loss nm s) p"
proof -
  from validation_loss_cases [OF assms(1), of s] assms(3)
  obtain v where v: "0 \<le> v" "validation_loss nm s = Fin v"
    by auto
  from assms(2) show ?thesis
  proof
    assume "p = PosInf" with v show ?thesis by simp
  next
    assume "\<exists>c. 0 \<le> c \<and> p = Fin c"
    then obtain c where c: "0 \<le> c" "p = Fin c" by blast
    with assms(3) v have "v < fl_mul nm c improvement_threshold" by simp
    moreover have "fl_mul nm c improvement_threshold \<le> c"
      using assms(1) c(1) unfolding sound_numerics_def by (simp add: improvement_threshold_def)
    ultimately show ?thesis using v c by simp
  qed
qed

lemma iteration_best_ok:
  assumes "sound_numerics nm"
    and "best_validation_loss s = PosInf \<or> (\<exists>c. 0 \<le> c \<and> best_validation_loss s = Fin c)"
  shows "best_validation_loss (iteration nm lr n s iter) = PosInf
     \<or> (\<exists>c. 0 \<le> c \<and> best_validation_loss (iteration nm lr n s iter) = Fin c)"
proof -
  let ?s1 = "snd (train_model lr s (iter mod n * batch_size))"
  from iteration_best [of nm lr n s iter] show ?thesis
  proof
    assume "best_validation_loss (iteration nm lr n s iter) = best_validation_loss s"
    with assms(2) show ?thesis by simp
  next
    assume e: "best_validation_loss (iteration nm lr n s iter) = validation_loss nm ?s1"
    from validation_loss_cases [OF assms(1), of ?s1] show ?thesis
    proof
      assume "validation_loss nm ?s1 = NaN"
      then have "best_validation_loss (iteration nm lr n s iter) = best_validation_loss s"
        by (simp add: iteration_def Let_def train_model_counters)
      with assms(2) show ?thesis by simp
    next
      assume "\<exists>v. 0 \<le> v \<and> validation_loss nm ?s1 = Fin v"
      with e show ?thesis by simp
    qed
  qed
qed

lemma executed_invariant:
  assumes "sound_numerics nm"
    and "best_validation_loss s = PosInf \<or> (\<exists>c. 0 \<le> c \<and> best_validation_loss s = Fin c)"
    and "x \<in> set (executed nm lr n s its)"
  shows "(best_validation_loss (fst (snd x)) = PosInf
          \<or> (\<exists>c. 0 \<le> c \<and> best_validation_loss (fst (snd x)) = Fin c))
       \<and> patience s \<le> patience (fst (snd x))
       \<and> snd (snd x) = iteration nm lr n (fst (snd x)) (fst x)"
  using assms(2,3)
proof (induction its arbitrary: s)
  case Nil then show ?case by simp
next
  case (Cons i its)
  let ?s' = "iteration nm lr n s i"
  from Cons.prems(2) have "x = (i, s, ?s') \<or> x \<in> set (executed nm lr n ?s' its)"
    by (auto simp: Let_def split: if_splits)
  then show ?case
  proof
    assume "x = (i, s, ?s')" with Cons.prems(1) show ?thesis by simp
  next
    assume x: "x \<in> set (executed nm lr n ?s' its)"
    have "patience s \<le> patience ?s'" by (rule iteration_patience_mono)
    with Cons.IH [OF iteration_best_ok [OF assms(1) Cons.prems(1)] x] show ?thesis by auto
  qed
qed

lemma executed_sorted: "sorted (map (\<lambda>x. patience (snd (snd x))) (executed nm lr n s its))
   \<and> (\<forall>x \<in> set (executed nm lr n s its). patience s \<le> patience (snd (snd x)))"
proof (induction its arbitrary: s)
  case Nil then show ?case by simp
next
  case (Cons i its)
  let ?s' = "iteration nm lr n s i"
  have m: "patience s \<le> patience ?s'" by (rule iteration_patience_mono)
  from Cons.IH [of ?s'] m show ?case
    by (auto simp: Let_def)
qed

lemma validation_loss_no_batches: "valid_set_x s = [] \<Longrightarrow> validation_loss nm s = NaN"
  by (simp add: validation_loss_def n_batches_def xrange_def numpy_mean_def batch_size_def)

lemma iteration_no_validation:
  "valid_set_x s = [] \<Longrightarrow> patience (iteration nm lr n s iter) = patience s"
  by (simp add: iteration_patience validation_loss_no_batches train_model_sets)

lemma executed_no_validation:
  "valid_set_x s = [] \<Longrightarrow> x \<in> set (executed nm lr n s its) \<Longrightarrow> patience (snd (snd x)) = patience s"
proof (induction its arbitrary: s)
  case Nil then show ?case by simp
next
  case (Cons i its)
  let ?s' = "iteration nm lr n s i"
  have v: "valid_set_x ?s' = []" using Cons.prems(1) by (simp add: iteration_sets)
  have p: "patience ?s' = patience s" using Cons.prems(1) by (rule iteration_no_validation)
  from Cons.prems(2) have "x = (i, s, ?s') \<or> x \<in> set (executed nm lr n ?s' its)"
    by (auto simp: Let_def split: if_splits)
  then show ?case
  proof
    assume "x = (i, s, ?s')" with p show ?thesis by simp
  next
    assume "x \<in> set (executed nm lr n ?s' its)"
    from Cons.IH [OF v this] p show ?thesis by simp
  qed
qed

lemma n_minibatches_500: "n_minibatches_of (replicate 500 r, ys) = 1"
  by (simp add: n_minibatches_of_def n_batches_def batch_size_def)

lemma initial_valid: "valid_set_x (initial_state tr ([], vy) te) = []"
  by (simp add: initial_state_def Let_def)

subsection \<open>The probabilities and the loss\<close>

lemma sum_list_exp_nth: "(\<Sum>u\<leftarrow>z. exp (u::real)) = (\<Sum>c<length z. exp (z ! c))"
proof -
  have "(\<Sum>u\<leftarrow>z. exp u) = (\<Sum>c = 0..<length (map exp z). map exp z ! c)"
    by (rule sum_list_sum_nth)
  also have "\<dots> = (\<Sum>c<length z. exp (z ! c))"
    by (simp add: atLeast0LessThan)
  finally show ?thesis .
qed

lemma sum_list_exp_pos: "z \<noteq> [] \<Longrightarrow> 0 < (\<Sum>u\<leftarrow>z. exp (u::real))"
  unfolding sum_list_exp_nth by (rule sum_pos) auto

lemma exp_le_sum_list_exp:
  assumes "j < length z"
  shows "exp (z ! j) \<le> (\<Sum>u\<leftarrow>z. exp (u::real))"
proof -
  have "(\<Sum>c<length z. exp (z ! c)) = exp (z ! j) + (\<Sum>c\<in>{..<length z} - {j}. exp (z ! c))"
    using assms by (simp add: sum.remove)
  moreover have "0 \<le> (\<Sum>c\<in>{..<length z} - {j}. exp (z ! c))"
    by (rule sum_nonneg) simp
  ultimately show ?thesis by (simp add: sum_list_exp_nth)
qed

lemma exp_less_sum_list_exp:
  assumes "j < length z" and "2 \<le> length z"
  shows "exp (z ! j) < (\<Sum>u\<leftarrow>z. exp (u::real))"
proof -
  have "(\<Sum>c<length z. exp (z ! c)) = exp (z ! j) + (\<Sum>c\<in>{..<length z} - {j}. exp (z ! c))"
    using assms by (simp add: sum.remove)
  moreover have "{..<length z} - {j} \<noteq> {}"
  proof (cases "j = 0")
    case True with assms have "1 \<in> {..<length z} - {j}" by auto
    then show ?thesis by blast
  next
    case False with assms have "0 \<in> {..<length z} - {j}" by auto
    then show ?thesis by blast
  qed
  then have "0 < (\<Sum>c\<in>{..<length z} - {j}. exp (z ! c))"
    by (intro sum_pos) auto
  ultimately show ?thesis by (simp add: sum_list_exp_nth)
qed


lemma logits_length:
  "i < length input \<Longrightarrow>
     length (add_row (dot input A) v ! i) = min (ncols A) (length v)"
  by (simp add: add_row_def dot_def)

lemma logits_nth:
  assumes "i < length input" and "j < ncols A" and "j < length v"
  shows "add_row (dot input A) v ! i ! j = (\<Sum>k<length A. input ! i ! k * A ! k ! j) + v ! j"
proof -
  have "(\<Sum>k\<leftarrow>[0..<length A]. input ! i ! k * A ! k ! j) = (\<Sum>k<length A. input ! i ! k * A ! k ! j)"
    by (simp add: interv_sum_list_conv_sum_set_nat atLeast0LessThan)
  then show ?thesis using assms by (simp add: add_row_def dot_def)
qed

lemma p_y_given_x_nth:
  assumes "i < length input"
  shows "p_y_given_x self input ! i =
     map (\<lambda>v. exp v / (\<Sum>u\<leftarrow>add_row (dot input (W self)) (b self) ! i. exp u))
       (add_row (dot input (W self)) (b self) ! i)"
  using assms by (simp add: p_y_given_x_def softmax_def add_row_def dot_def)

subsection \<open>The prediction\<close>

lemma argmax_from_scan:
  assumes "i \<le> length row" and "mi < i" and "m = row ! mi"
    and "\<forall>j<i. row ! j \<le> m" and "\<forall>j<mi. row ! j < m"
  shows "argmax_from (drop i row) i m mi < length row
    \<and> (\<forall>j<length row. row ! j \<le> row ! argmax_from (drop i row) i m mi)
    \<and> (\<forall>j<argmax_from (drop i row) i m mi. row ! j < row ! argmax_from (drop i row) i m mi)"
  using assms
proof (induction "length row - i" arbitrary: i m mi)
  case 0
  then have "drop i row = []" by simp
  with 0 show ?case by auto
next
  case (Suc n)
  then have i: "i < length row" by simp
  then have d: "drop i row = row ! i # drop (Suc i) row" by (simp add: Cons_nth_drop_Suc)
  have n: "n = length row - Suc i" using Suc.hyps(2) by simp
  show ?case
  proof (cases "m < row ! i")
    case True
    have "\<forall>j<Suc i. row ! j \<le> row ! i"
      using Suc.prems(4) True by (auto simp: less_Suc_eq)
    moreover have "\<forall>j<i. row ! j < row ! i"
      using Suc.prems(4) True by fastforce
    ultimately show ?thesis
      using Suc.hyps(1) [OF n, of i "row ! i"] i True by (simp add: d)
  next
    case False
    then have "\<forall>j<Suc i. row ! j \<le> m"
      using Suc.prems(4) by (auto simp: less_Suc_eq)
    then show ?thesis
      using Suc.hyps(1) [OF n, of mi m] i False Suc.prems by (simp add: d)
  qed
qed

lemma argmax_first_max:
  assumes "row \<noteq> []"
  shows "argmax row < length row \<and> row ! argmax row = Max (set row)
    \<and> (\<forall>j<argmax row. row ! j < row ! argmax row)"
proof -
  obtain x xs where r: "row = x # xs" using assms by (cases row) auto
  have a: "argmax row = argmax_from (drop 1 row) 1 (row ! 0) 0"
    by (simp add: argmax_def r)
  have s: "argmax row < length row
    \<and> (\<forall>j<length row. row ! j \<le> row ! argmax row)
    \<and> (\<forall>j<argmax row. row ! j < row ! argmax row)"
    unfolding a by (rule argmax_from_scan) (auto simp: r)
  then have "row ! argmax row \<in> set row" by simp
  moreover have "\<And>v. v \<in> set row \<Longrightarrow> v \<le> row ! argmax row"
    using s by (auto simp: in_set_conv_nth)
  ultimately have "Max (set row) = row ! argmax row"
    by (intro Max_eqI) auto
  with s show ?thesis by simp
qed

lemma dot_length: "length (dot A B) = length A"
  by (simp add: dot_def)

lemma p_y_given_x_length: "length (p_y_given_x self input) = length input"
  by (simp add: p_y_given_x_def softmax_def add_row_def dot_def)

lemma p_y_given_x_row_length:
  "i < length input \<Longrightarrow>
     length (p_y_given_x self input ! i) = min (ncols (W self)) (length (b self))"
  by (simp add: p_y_given_x_def softmax_def add_row_def dot_def)

lemma p_y_given_x_entry:
  assumes "i < length input" and "length (b self) = ncols (W self)" and "j < ncols (W self)"
  shows "p_y_given_x self input ! i ! j =
      exp ((\<Sum>k<length (W self). input ! i ! k * W self ! k ! j) + b self ! j) /
      (\<Sum>c<ncols (W self). exp ((\<Sum>k<length (W self). input ! i ! k * W self ! k ! c) + b self ! c))"
proof -
  let ?z = "add_row (dot input (W self)) (b self) ! i"
  have len: "length ?z = ncols (W self)" using assms by (simp add: logits_length)
  have nth: "?z ! c = (\<Sum>k<length (W self). input ! i ! k * W self ! k ! c) + b self ! c"
    if "c < ncols (W self)" for c
    using assms that by (simp add: logits_nth)
  have "p_y_given_x self input ! i ! j = exp (?z ! j) / (\<Sum>u\<leftarrow>?z. exp u)"
    using assms len by (simp add: p_y_given_x_nth)
  also have "(\<Sum>u\<leftarrow>?z. exp u) = (\<Sum>c<ncols (W self). exp (?z ! c))"
    by (simp add: sum_list_exp_nth len)
  finally show ?thesis using assms(3) by (simp add: nth)
qed

lemma p_y_given_x_bounds:
  assumes "i < length input" and "length (b self) = ncols (W self)" and "j < ncols (W self)"
  shows "0 < p_y_given_x self input ! i ! j" and "p_y_given_x self input ! i ! j \<le> 1"
    and "2 \<le> ncols (W self) \<Longrightarrow> p_y_given_x self input ! i ! j < 1"
proof -
  let ?z = "add_row (dot input (W self)) (b self) ! i"
  have len: "length ?z = ncols (W self)" using assms by (simp add: logits_length)
  then have ne: "?z \<noteq> []" using assms(3) by auto
  have e: "p_y_given_x self input ! i ! j = exp (?z ! j) / (\<Sum>u\<leftarrow>?z. exp u)"
    using assms len by (simp add: p_y_given_x_nth)
  have pos: "0 < (\<Sum>u\<leftarrow>?z. exp u)" using ne by (rule sum_list_exp_pos)
  show "0 < p_y_given_x self input ! i ! j" using pos by (simp add: e)
  have "exp (?z ! j) \<le> (\<Sum>u\<leftarrow>?z. exp u)"
    using assms(3) len by (simp add: exp_le_sum_list_exp)
  then show "p_y_given_x self input ! i ! j \<le> 1" using pos by (simp add: e)
  assume "2 \<le> ncols (W self)"
  then have "exp (?z ! j) < (\<Sum>u\<leftarrow>?z. exp u)"
    using assms(3) len by (simp add: exp_less_sum_list_exp)
  then show "p_y_given_x self input ! i ! j < 1" using pos by (simp add: e)
qed


lemma T_mean_uminus: "- T_mean (map f xs) = T_mean (map (\<lambda>x. - f x) xs)"
proof -
  have "(\<Sum>x\<leftarrow>xs. - f x) = - (\<Sum>x\<leftarrow>xs. f x)"
    by (induction xs) simp_all
  then show ?thesis by (simp add: T_mean_def)
qed

lemma adv_index_log:
  assumes "length y \<le> length P"
    and "\<forall>i<length y. 0 \<le> y ! i \<and> nat (y ! i) < length (P ! i)"
  shows "adv_index (T_log P) y = map (\<lambda>i. ln (P ! i ! nat (y ! i))) [0..<length y]"
  unfolding adv_index_def
proof (rule map_cong [OF refl])
  fix i assume "i \<in> set [0..<length y]"
  then have i: "i < length y" by simp
  with assms have "i < length P" "0 \<le> y ! i" "nat (y ! i) < length (P ! i)" by auto
  then show "T_log P ! i ! py_index (length (T_log P ! i)) (y ! i) = ln (P ! i ! nat (y ! i))"
    by (simp add: T_log_def py_index_def)
qed

lemma nll_as_mean:
  assumes "length y \<le> length input" and "length (b self) = ncols (W self)"
    and "\<forall>i<length y. 0 \<le> y ! i \<and> y ! i < int (ncols (W self))"
  shows "negative_log_likelihood self input y =
      T_mean (map (\<lambda>i. - ln (p_y_given_x self input ! i ! nat (y ! i))) [0..<length y])"
proof -
  let ?P = "p_y_given_x self input"
  have "\<forall>i<length y. 0 \<le> y ! i \<and> nat (y ! i) < length (?P ! i)"
    using assms by (auto simp: p_y_given_x_row_length)
  moreover have "length y \<le> length ?P" using assms(1) by (simp add: p_y_given_x_length)
  ultimately have "adv_index (T_log ?P) y = map (\<lambda>i. ln (?P ! i ! nat (y ! i))) [0..<length y]"
    by (intro adv_index_log) auto
  then show ?thesis
    by (simp add: negative_log_likelihood_def T_mean_uminus)
qed

subsection \<open>The gradient of the loss\<close>

lemma partial_eq: "(f has_real_derivative d) (at x) \<Longrightarrow> partial f x = d"
  unfolding partial_def by (rule the_equality) (auto intro: DERIV_unique)

lemma log_softmax_deriv:
  fixes z :: "nat \<Rightarrow> real \<Rightarrow> real"
  assumes z: "\<And>j. j < K \<Longrightarrow> (z j has_real_derivative z' j) (at w0)" and t: "t < K"
  shows "((\<lambda>w. - ln (exp (z t w) / (\<Sum>j<K. exp (z j w)))) has_real_derivative
           (\<Sum>j<K. exp (z j w0) * z' j) / (\<Sum>j<K. exp (z j w0)) - z' t) (at w0)"
proof -
  have pos: "0 < (\<Sum>j<K. exp (z j w0))"
    using t by (intro sum_pos) auto
  show ?thesis
    using pos
    by (auto intro!: derivative_eq_intros z t simp: field_simps)
qed

lemma T_mean_upt: "T_mean (map f [0..<n]) = (\<Sum>i<n. f i) / real n"
  by (simp add: T_mean_def interv_sum_list_conv_sum_set_nat atLeast0LessThan)

lemma nll_deriv:
  fixes selfw :: "real \<Rightarrow> 'a LogisticRegression_scheme"
  assumes bw: "\<And>w. length (b (selfw w)) = K" and nc: "\<And>w. ncols (W (selfw w)) = K"
    and nr: "\<And>w. length (W (selfw w)) = D"
    and n: "length y = length X"
    and lab: "\<forall>i<length y. 0 \<le> y ! i \<and> y ! i < int K"
    and z: "\<And>i j. i < length X \<Longrightarrow> j < K \<Longrightarrow>
        ((\<lambda>w. (\<Sum>k<D. X ! i ! k * W (selfw w) ! k ! j) + b (selfw w) ! j)
           has_real_derivative (if j = c then x i else 0)) (at w0)"
    and c: "c < K"
  shows "((\<lambda>w. negative_log_likelihood (selfw w) X y) has_real_derivative
           (\<Sum>i<length X. x i * (p_y_given_x (selfw w0) X ! i ! c - (if y ! i = int c then 1 else 0)))
             / real (length X)) (at w0)"
proof -
  define zf where "zf i j w = (\<Sum>k<D. X ! i ! k * W (selfw w) ! k ! j) + b (selfw w) ! j" for i j w
  define t where "t i = nat (y ! i)" for i
  have t: "t i < K" if "i < length X" for i
    using lab n that by (auto simp: t_def)
  have P: "p_y_given_x (selfw w) X ! i ! j = exp (zf i j w) / (\<Sum>j<K. exp (zf i j w))"
    if "i < length X" "j < K" for i j w
    using p_y_given_x_entry [of i X "selfw w" j] that by (simp add: bw nc nr zf_def)
  have cost: "negative_log_likelihood (selfw w) X y =
      (\<Sum>i<length X. - ln (exp (zf i (t i) w) / (\<Sum>j<K. exp (zf i j w)))) / real (length X)" for w
  proof -
    have "negative_log_likelihood (selfw w) X y =
        T_mean (map (\<lambda>i. - ln (p_y_given_x (selfw w) X ! i ! nat (y ! i))) [0..<length y])"
      using nll_as_mean [of y X "selfw w"] n lab by (simp add: bw nc)
    also have "\<dots> = (\<Sum>i<length X. - ln (p_y_given_x (selfw w) X ! i ! t i)) / real (length X)"
      by (simp only: T_mean_upt n t_def)
    also have "(\<Sum>i<length X. - ln (p_y_given_x (selfw w) X ! i ! t i)) =
        (\<Sum>i<length X. - ln (exp (zf i (t i) w) / (\<Sum>j<K. exp (zf i j w))))"
      by (rule sum.cong) (simp_all add: P t)
    finally show ?thesis .
  qed
  have row: "((\<lambda>w. - ln (exp (zf i (t i) w) / (\<Sum>j<K. exp (zf i j w)))) has_real_derivative
        x i * (p_y_given_x (selfw w0) X ! i ! c - (if y ! i = int c then 1 else 0))) (at w0)"
    if i: "i < length X" for i
  proof -
    have d: "(zf i j has_real_derivative (if j = c then x i else 0)) (at w0)" if "j < K" for j
      using z [OF i that] by (simp add: zf_def [abs_def])
    have D1: "((\<lambda>w. - ln (exp (zf i (t i) w) / (\<Sum>j<K. exp (zf i j w)))) has_real_derivative
        (\<Sum>j<K. exp (zf i j w0) * (if j = c then x i else 0)) / (\<Sum>j<K. exp (zf i j w0))
          - (if t i = c then x i else 0)) (at w0)"
      by (rule log_softmax_deriv [where z = "zf i" and z' = "\<lambda>j. if j = c then x i else 0",
            OF d t [OF i]])
    have s: "(\<Sum>j<K. exp (zf i j w0) * (if j = c then x i else 0)) = exp (zf i c w0) * x i"
    proof -
      have "(\<Sum>j<K. exp (zf i j w0) * (if j = c then x i else 0)) =
          (\<Sum>j\<in>{..<K}. if j = c then exp (zf i c w0) * x i else 0)"
        by (rule sum.cong) auto
      also have "\<dots> = exp (zf i c w0) * x i"
        using c by (subst sum.delta) auto
      finally show ?thesis .
    qed
    have e: "t i = c \<longleftrightarrow> y ! i = int c"
      using lab n i by (auto simp: t_def)
    have "(\<Sum>j<K. exp (zf i j w0) * (if j = c then x i else 0)) / (\<Sum>j<K. exp (zf i j w0))
          - (if t i = c then x i else 0) =
        x i * (p_y_given_x (selfw w0) X ! i ! c - (if y ! i = int c then 1 else 0))"
      using i c by (simp add: s e P algebra_simps)
    with D1 show ?thesis by simp
  qed
  have "((\<lambda>w. (\<Sum>i<length X. - ln (exp (zf i (t i) w) / (\<Sum>j<K. exp (zf i j w)))) / real (length X))
      has_real_derivative
        (\<Sum>i<length X. x i * (p_y_given_x (selfw w0) X ! i ! c - (if y ! i = int c then 1 else 0)))
          / real (length X)) (at w0)"
    by (intro DERIV_cdivide DERIV_sum) (simp add: row)
  then show ?thesis by (simp only: cost)
qed

lemma ncols_nth: "M \<noteq> [] \<Longrightarrow> ncols M = length (M ! 0)"
  by (cases M) (simp_all add: ncols_def)

lemma ncols_rect: "k < length M \<Longrightarrow> \<forall>row\<in>set M. length row = K \<Longrightarrow> ncols M = K"
  by (cases M) (auto simp: ncols_def)

lemma ncols_update:
  assumes "k < length A" and "\<forall>row\<in>set A. length row = K"
  shows "ncols (A[k := (A ! k)[c := w]]) = K"
proof -
  have "A \<noteq> []" using assms(1) by (cases A) auto
  then have "ncols (A[k := (A ! k)[c := w]]) = length ((A[k := (A ! k)[c := w]]) ! 0)"
    by (simp add: ncols_nth)
  also have "\<dots> = K"
  proof -
    have "0 < length A" using assms(1) by (cases A) auto
    then have "A ! 0 \<in> set A" by (rule nth_mem)
    moreover have "A ! k \<in> set A" using assms(1) by (rule nth_mem)
    ultimately have "A ! 0 \<in> set A" "A ! k \<in> set A" by blast+
    with assms show ?thesis by (cases "k = 0") auto
  qed
  finally show ?thesis .
qed

lemma logit_deriv_W:
  assumes k: "k < length A" and c: "c < length (A ! k)"
  shows "((\<lambda>w. (\<Sum>k'<length A. r ! k' * A[k := (A ! k)[c := w]] ! k' ! j) + v ! j)
      has_real_derivative (if j = c then r ! k else 0)) (at w0)"
proof -
  have t: "((\<lambda>w. r ! k' * A[k := (A ! k)[c := w]] ! k' ! j) has_real_derivative
      (if k' = k \<and> j = c then r ! k else 0)) (at w0)" if "k' < length A" for k'
  proof (cases "k' = k \<and> j = c")
    case True
    then have "(\<lambda>w. r ! k' * A[k := (A ! k)[c := w]] ! k' ! j) = (\<lambda>w. r ! k * w)"
      using k c by (simp add: fun_eq_iff)
    then show ?thesis using True by (auto intro!: derivative_eq_intros)
  next
    case False
    then have "(\<lambda>w. r ! k' * A[k := (A ! k)[c := w]] ! k' ! j) = (\<lambda>w. r ! k' * A ! k' ! j)"
      using k that by (auto simp: fun_eq_iff nth_list_update)
    then show ?thesis using False by auto
  qed
  have "((\<lambda>w. (\<Sum>k'<length A. r ! k' * A[k := (A ! k)[c := w]] ! k' ! j) + v ! j)
      has_real_derivative (\<Sum>k'<length A. if k' = k \<and> j = c then r ! k else 0) + 0) (at w0)"
    by (intro DERIV_add DERIV_sum DERIV_const) (simp add: t)
  moreover have "(\<Sum>k'<length A. if k' = k \<and> j = c then r ! k else 0) = (if j = c then r ! k else 0)"
  proof (cases "j = c")
    case True then show ?thesis using k by (simp add: sum.delta)
  next
    case False then show ?thesis by simp
  qed
  ultimately show ?thesis by simp
qed

lemma logit_deriv_b:
  assumes "c < length v"
  shows "((\<lambda>w. s + v[c := w] ! j) has_real_derivative (if j = c then 1 else 0)) (at w0)"
proof (cases "j = c")
  case True
  then have "(\<lambda>w. s + v[c := w] ! j) = (\<lambda>w. s + w)" using assms by (simp add: fun_eq_iff)
  then show ?thesis using True by (auto intro!: derivative_eq_intros)
next
  case False
  then have "(\<lambda>w. s + v[c := w] ! j) = (\<lambda>w. s + v ! j)" by (simp add: fun_eq_iff)
  then show ?thesis using False by simp
qed

lemma mat_sub_shape:
  assumes "length P = n" and "length y = n" and "\<forall>row\<in>set P. length row = K"
  shows "length (mat_sub P (one_hot K y)) = n"
    and "i < n \<Longrightarrow> length (mat_sub P (one_hot K y) ! i) = K"
    and "i < n \<Longrightarrow> c < K \<Longrightarrow>
      mat_sub P (one_hot K y) ! i ! c = P ! i ! c - (if y ! i = int c then 1 else 0)"
proof -
  show "length (mat_sub P (one_hot K y)) = n"
    using assms by (simp add: mat_sub_def one_hot_def)
  assume i: "i < n"
  then have "P ! i \<in> set P" using assms(1) by simp
  then have l: "length (P ! i) = K" using assms(3) by simp
  show "length (mat_sub P (one_hot K y) ! i) = K"
    using assms i l by (simp add: mat_sub_def one_hot_def)
  assume "c < K"
  then show "mat_sub P (one_hot K y) ! i ! c = P ! i ! c - (if y ! i = int c then 1 else 0)"
    using assms i l by (auto simp: mat_sub_def one_hot_def)
qed

lemma spec_grad_W_shape:
  assumes "X \<noteq> []" and "length P = length X" and "length y = length X"
    and "\<forall>row\<in>set X. length row = D" and "\<forall>row\<in>set P. length row = K"
  shows "length (spec_grad_W X P (one_hot K y)) = D"
    and "k < D \<Longrightarrow> length (spec_grad_W X P (one_hot K y) ! k) = K"
    and "k < D \<Longrightarrow> c < K \<Longrightarrow> spec_grad_W X P (one_hot K y) ! k ! c =
      (\<Sum>i<length X. X ! i ! k * (P ! i ! c - (if y ! i = int c then 1 else 0))) / real (length X)"
proof -
  let ?B = "mat_sub P (one_hot K y)"
  have n0: "0 < length X" using assms(1) by simp
  have ncX: "ncols X = D" using assms(1,4) by (cases X) (auto simp: ncols_def)
  have lB: "length ?B = length X" using assms by (simp add: mat_sub_shape)
  then have "?B \<noteq> []" using assms(1) by auto
  then have ncB: "ncols ?B = K"
    using mat_sub_shape(2) [OF assms(2,3,5), of 0] n0 by (simp add: ncols_nth)
  show "length (spec_grad_W X P (one_hot K y)) = D"
    by (simp add: spec_grad_W_def dot_def mat_transpose_def ncX)
  assume k: "k < D"
  show "length (spec_grad_W X P (one_hot K y) ! k) = K"
    using k by (simp add: spec_grad_W_def dot_def mat_transpose_def ncX ncB)
  assume c: "c < K"
  have "spec_grad_W X P (one_hot K y) ! k ! c =
      (\<Sum>i\<leftarrow>[0..<length X]. map (\<lambda>row. row ! k) X ! i * ?B ! i ! c) / real (length X)"
    using k c by (simp add: spec_grad_W_def dot_def mat_transpose_def ncX ncB lB)
  also have "(\<Sum>i\<leftarrow>[0..<length X]. map (\<lambda>row. row ! k) X ! i * ?B ! i ! c) =
      (\<Sum>i<length X. map (\<lambda>row. row ! k) X ! i * ?B ! i ! c)"
    by (simp add: interv_sum_list_conv_sum_set_nat atLeast0LessThan)
  also have "\<dots> = (\<Sum>i<length X. X ! i ! k * (P ! i ! c - (if y ! i = int c then 1 else 0)))"
    by (rule sum.cong) (simp_all add: mat_sub_shape(3) [OF assms(2,3,5)] c)
  finally show "spec_grad_W X P (one_hot K y) ! k ! c =
      (\<Sum>i<length X. X ! i ! k * (P ! i ! c - (if y ! i = int c then 1 else 0))) / real (length X)" .
qed

lemma spec_grad_b_shape:
  assumes "P \<noteq> []" and "length y = length P" and "\<forall>row\<in>set P. length row = K"
  shows "length (spec_grad_b P (one_hot K y)) = K"
    and "c < K \<Longrightarrow> spec_grad_b P (one_hot K y) ! c =
      (\<Sum>i<length P. 1 * (P ! i ! c - (if y ! i = int c then 1 else 0))) / real (length P)"
proof -
  let ?B = "mat_sub P (one_hot K y)"
  have ncP: "ncols P = K" using assms(1,3) by (cases P) (auto simp: ncols_def)
  have lB: "length ?B = length P" using assms by (simp add: mat_sub_shape)
  show "length (spec_grad_b P (one_hot K y)) = K" by (simp add: spec_grad_b_def ncP)
  assume c: "c < K"
  have "map (\<lambda>row. row ! c) ?B = map (\<lambda>i. ?B ! i ! c) [0..<length P]"
    by (rule nth_equalityI) (simp_all add: lB)
  then have "spec_grad_b P (one_hot K y) ! c = (\<Sum>i<length P. ?B ! i ! c) / real (length P)"
    using c by (simp add: spec_grad_b_def ncP T_mean_upt)
  also have "(\<Sum>i<length P. ?B ! i ! c) =
      (\<Sum>i<length P. 1 * (P ! i ! c - (if y ! i = int c then 1 else 0)))"
    by (rule sum.cong) (simp_all add: mat_sub_shape(3) [OF refl assms(2,3)] c)
  finally show "spec_grad_b P (one_hot K y) ! c =
      (\<Sum>i<length P. 1 * (P ! i ! c - (if y ! i = int c then 1 else 0))) / real (length P)" .
qed

lemma p_y_given_x_rows:
  assumes "length (b self) = ncols (W self)"
  shows "\<forall>row\<in>set (p_y_given_x self X). length row = ncols (W self)"
proof
  fix row assume "row \<in> set (p_y_given_x self X)"
  then obtain i where "i < length X" "row = p_y_given_x self X ! i"
    by (auto simp: in_set_conv_nth p_y_given_x_length)
  then show "length row = ncols (W self)"
    using assms by (simp add: p_y_given_x_row_length)
qed

lemma grad_W_closed_form:
  fixes self :: "'a LogisticRegression_scheme"
  assumes X: "X \<noteq> []" and y: "length y = length X"
    and Xr: "\<forall>row\<in>set X. length row = length (W self)"
    and Wr: "\<forall>row\<in>set (W self). length row = ncols (W self)"
    and bl: "length (b self) = ncols (W self)"
    and lab: "\<forall>i<length y. 0 \<le> y ! i \<and> y ! i < int (ncols (W self))"
  shows "T_grad_matrix (\<lambda>A. negative_log_likelihood (self\<lparr>W := A\<rparr>) X y) (W self) =
     spec_grad_W X (p_y_given_x self X) (one_hot (ncols (W self)) y)"
proof -
  let ?A = "W self" and ?K = "ncols (W self)" and ?P = "p_y_given_x self X"
  let ?G = "spec_grad_W X ?P (one_hot ?K y)"
  note sh = spec_grad_W_shape [OF X p_y_given_x_length y Xr p_y_given_x_rows [OF bl]]
  have rowlen: "length (?A ! k) = ?K" if "k < length ?A" for k
    using Wr that by simp
  have entry: "partial (\<lambda>w. negative_log_likelihood (self\<lparr>W := ?A[k := (?A ! k)[c := w]]\<rparr>) X y)
        (?A ! k ! c) = ?G ! k ! c"
    if k: "k < length ?A" and c: "c < ?K" for k c
  proof -
    let ?selfw = "\<lambda>w. self\<lparr>W := ?A[k := (?A ! k)[c := w]]\<rparr>"
    have c': "c < length (?A ! k)" using c rowlen [OF k] by simp
    have "((\<lambda>w. negative_log_likelihood (?selfw w) X y) has_real_derivative
        (\<Sum>i<length X. X ! i ! k *
            (p_y_given_x (?selfw (?A ! k ! c)) X ! i ! c - (if y ! i = int c then 1 else 0)))
          / real (length X)) (at (?A ! k ! c))"
    proof (rule nll_deriv [where K = ?K and D = "length ?A"])
      show "length (b (?selfw w)) = ?K" for w by (simp add: bl)
      show "ncols (W (?selfw w)) = ?K" for w using k Wr by (simp add: ncols_update)
      show "length (W (?selfw w)) = length ?A" for w by simp
      show "length y = length X" by (rule y)
      show "\<forall>i<length y. 0 \<le> y ! i \<and> y ! i < int ?K" by (rule lab)
      show "c < ?K" by (rule c)
      show "((\<lambda>w. (\<Sum>k'<length ?A. X ! i ! k' * W (?selfw w) ! k' ! j) + b (?selfw w) ! j)
          has_real_derivative (if j = c then X ! i ! k else 0)) (at (?A ! k ! c))" for i j
        using logit_deriv_W [OF k c', of "X ! i" j "b self"] by simp
    qed
    moreover have "?selfw (?A ! k ! c) = self" by simp
    ultimately have "partial (\<lambda>w. negative_log_likelihood (?selfw w) X y) (?A ! k ! c) =
        (\<Sum>i<length X. X ! i ! k * (?P ! i ! c - (if y ! i = int c then 1 else 0)))
          / real (length X)"
      by (simp add: partial_eq)
    then show ?thesis using sh(3) [of k c] k c by simp
  qed
  show ?thesis
  proof (rule nth_equalityI)
    show "length (T_grad_matrix (\<lambda>A. negative_log_likelihood (self\<lparr>W := A\<rparr>) X y) ?A) = length ?G"
      by (simp add: T_grad_matrix_def sh(1))
  next
    fix k assume "k < length (T_grad_matrix (\<lambda>A. negative_log_likelihood (self\<lparr>W := A\<rparr>) X y) ?A)"
    then have k: "k < length ?A" by (simp add: T_grad_matrix_def)
    show "T_grad_matrix (\<lambda>A. negative_log_likelihood (self\<lparr>W := A\<rparr>) X y) ?A ! k = ?G ! k"
    proof (rule nth_equalityI)
      show "length (T_grad_matrix (\<lambda>A. negative_log_likelihood (self\<lparr>W := A\<rparr>) X y) ?A ! k) =
          length (?G ! k)"
        using k by (simp add: T_grad_matrix_def sh(2) rowlen)
    next
      fix c assume "c < length (T_grad_matrix (\<lambda>A. negative_log_likelihood (self\<lparr>W := A\<rparr>) X y) ?A ! k)"
      then have c: "c < ?K" using k by (simp add: T_grad_matrix_def rowlen)
      then show "T_grad_matrix (\<lambda>A. negative_log_likelihood (self\<lparr>W := A\<rparr>) X y) ?A ! k ! c =
          ?G ! k ! c"
        using k entry [OF k c] by (simp add: T_grad_matrix_def rowlen)
    qed
  qed
qed

lemma grad_b_closed_form:
  fixes self :: "'a LogisticRegression_scheme"
  assumes X: "X \<noteq> []" and y: "length y = length X"
    and bl: "length (b self) = ncols (W self)"
    and lab: "\<forall>i<length y. 0 \<le> y ! i \<and> y ! i < int (ncols (W self))"
  shows "T_grad_vector (\<lambda>v. negative_log_likelihood (self\<lparr>b := v\<rparr>) X y) (b self) =
     spec_grad_b (p_y_given_x self X) (one_hot (ncols (W self)) y)"
proof -
  let ?v = "b self" and ?K = "ncols (W self)" and ?P = "p_y_given_x self X"
  let ?G = "spec_grad_b ?P (one_hot ?K y)"
  have Pne: "?P \<noteq> []" using X p_y_given_x_length [of self X] by auto
  have yP: "length y = length ?P" by (simp add: y p_y_given_x_length)
  note sh = spec_grad_b_shape [OF Pne yP p_y_given_x_rows [OF bl]]
  have entry: "partial (\<lambda>w. negative_log_likelihood (self\<lparr>b := ?v[c := w]\<rparr>) X y) (?v ! c) = ?G ! c"
    if c: "c < ?K" for c
  proof -
    let ?selfw = "\<lambda>w. self\<lparr>b := ?v[c := w]\<rparr>"
    have "((\<lambda>w. negative_log_likelihood (?selfw w) X y) has_real_derivative
        (\<Sum>i<length X. 1 *
            (p_y_given_x (?selfw (?v ! c)) X ! i ! c - (if y ! i = int c then 1 else 0)))
          / real (length X)) (at (?v ! c))"
    proof (rule nll_deriv [where K = ?K and D = "length (W self)"])
      show "length (b (?selfw w)) = ?K" for w by (simp add: bl)
      show "ncols (W (?selfw w)) = ?K" for w by simp
      show "length (W (?selfw w)) = length (W self)" for w by simp
      show "length y = length X" by (rule y)
      show "\<forall>i<length y. 0 \<le> y ! i \<and> y ! i < int ?K" by (rule lab)
      show "c < ?K" by (rule c)
      show "((\<lambda>w. (\<Sum>k'<length (W self). X ! i ! k' * W (?selfw w) ! k' ! j) + b (?selfw w) ! j)
          has_real_derivative (if j = c then 1 else 0)) (at (?v ! c))" for i j
        using logit_deriv_b [of c ?v _ j] c bl by simp
    qed
    moreover have "?selfw (?v ! c) = self" by simp
    ultimately have "partial (\<lambda>w. negative_log_likelihood (?selfw w) X y) (?v ! c) =
        (\<Sum>i<length X. 1 * (?P ! i ! c - (if y ! i = int c then 1 else 0))) / real (length X)"
      by (simp add: partial_eq)
    then show ?thesis using sh(2) [OF c] by (simp add: p_y_given_x_length)
  qed
  show ?thesis
  proof (rule nth_equalityI)
    show "length (T_grad_vector (\<lambda>v. negative_log_likelihood (self\<lparr>b := v\<rparr>) X y) ?v) = length ?G"
      by (simp add: T_grad_vector_def sh(1) bl)
  next
    fix c assume "c < length (T_grad_vector (\<lambda>v. negative_log_likelihood (self\<lparr>b := v\<rparr>) X y) ?v)"
    then have c: "c < ?K" by (simp add: T_grad_vector_def bl)
    then show "T_grad_vector (\<lambda>v. negative_log_likelihood (self\<lparr>b := v\<rparr>) X y) ?v ! c = ?G ! c"
      using entry [OF c] by (simp add: T_grad_vector_def bl)
  qed
qed

lemma vec_step_nth:
  "c < length v \<Longrightarrow> c < length g \<Longrightarrow> vec_step v r g ! c = v ! c - r * g ! c"
  by (simp add: vec_step_def)

lemma mat_step_nth:
  "k < length A \<Longrightarrow> k < length G \<Longrightarrow> c < length (A ! k) \<Longrightarrow> c < length (G ! k) \<Longrightarrow>
     mat_step A r G ! k ! c = A ! k ! c - r * G ! k ! c"
  by (simp add: mat_step_def vec_step_nth)

lemma concat_rect_length: "\<forall>row\<in>set M. length row = c \<Longrightarrow> length (concat M) = length M * c"
  by (induction M) auto

lemma reshape_id:
  assumes "length M = r" and "\<forall>row\<in>set M. length row = c"
  shows "reshape r c M = M"
proof (rule nth_equalityI)
  show "length (reshape r c M) = length M" using assms by (simp add: reshape_def)
next
  fix i assume "i < length (reshape r c M)"
  then have i: "i < length M" using assms by (simp add: reshape_def)
  have split: "M = take i M @ M ! i # drop (Suc i) M" using i by (rule id_take_nth_drop)
  have "\<forall>row\<in>set (take i M). length row = c" using assms(2) by (auto dest: in_set_takeD)
  from concat_rect_length [OF this] have l: "length (concat (take i M)) = i * c"
    using i by (simp add: min_def del: length_concat)
  have li: "length (M ! i) = c" using assms(2) i by simp
  have "concat M = concat (take i M) @ M ! i @ concat (drop (Suc i) M)"
    by (subst split) simp
  then have "take c (drop (i * c) (concat M)) = M ! i"
    using l li by (simp del: length_concat)
  then show "reshape r c M ! i = M ! i" using i assms(1) by (simp add: reshape_def)
qed

lemma minibatch_x_full:
  "minibatch_x (replicate 500 (replicate 784 v)) 0 = replicate 500 (replicate 784 v)"
  by (simp add: minibatch_x_def slice_def batch_size_def reshape_id)

lemma minibatch_y_full: "minibatch_y (replicate 500 l) 0 = replicate 500 l"
  by (simp add: minibatch_y_def slice_def batch_size_def)

lemma initial_state_fields:
  "W (initial_state tr va te) = replicate 784 (replicate 10 0)"
  "b (initial_state tr va te) = replicate 10 0"
  "train_set_x (initial_state tr va te) = fst tr"
  "train_set_y (initial_state tr va te) = snd tr"
  by (simp_all add: initial_state_def LogisticRegression_init_def Let_def)

lemma ncols_replicate: "0 < n \<Longrightarrow> ncols (replicate n r) = length r"
  by (cases n) (simp_all add: ncols_def)

lemma zero_parameters_uniform:
  assumes Ws: "W s = replicate 784 (replicate 10 0)" and bs: "b s = replicate 10 0"
    and i: "i < length X" and c: "c < 10"
  shows "p_y_given_x s X ! i ! c = 1 / 10"
proof -
  have nc: "ncols (W s) = 10" by (simp add: Ws ncols_replicate)
  have z: "(\<Sum>k<length (W s). X ! i ! k * W s ! k ! j) + b s ! j = 0" if "j < 10" for j
  proof -
    have "(\<Sum>k<length (W s). X ! i ! k * W s ! k ! j) = 0"
      by (rule sum.neutral) (simp add: Ws that)
    then show ?thesis using that by (simp add: bs)
  qed
  have "p_y_given_x s X ! i ! c =
      exp ((\<Sum>k<length (W s). X ! i ! k * W s ! k ! c) + b s ! c) /
      (\<Sum>j<ncols (W s). exp ((\<Sum>k<length (W s). X ! i ! k * W s ! k ! j) + b s ! j))"
    using i c by (intro p_y_given_x_entry) (simp_all add: nc bs)
  also have "(\<Sum>j<ncols (W s). exp ((\<Sum>k<length (W s). X ! i ! k * W s ! k ! j) + b s ! j)) =
      (\<Sum>j<(10::nat). 1)"
    unfolding nc by (rule sum.cong) (simp_all add: z)
  finally show ?thesis using c by (simp add: z)
qed

subsection \<open>The method errors\<close>

lemma errors_ivector:
  "errors self input ivector y = Inr (T_mean (T_neq (y_pred self input) y))"
  by (simp add: errors_def ivector_def y_pred_type_def startswith_def)

lemma validate_model_errors:
  "Inr (validate_model s off) =
     errors s (minibatch_x (valid_set_x s) off) ivector (minibatch_y (valid_set_y s) off)"
  by (simp add: errors_ivector validate_model_def)

lemma test_model_errors:
  "Inr (test_model s off) =
     errors s (minibatch_x (test_set_x s) off) ivector (minibatch_y (test_set_y s) off)"
  by (simp add: errors_ivector test_model_def)

lemma errors_not_int:
  "ndim y_type = 1 \<Longrightarrow> \<not> startswith (dtype y_type) ''int'' \<Longrightarrow>
     errors self input y_type y = Inl NotImplementedError"
  by (simp add: errors_def y_pred_type_def)

lemma errors_value:
  assumes "ndim y_type = 1" and "startswith (dtype y_type) ''int''"
  shows "\<exists>e. errors self input y_type y = Inr e \<and> 0 \<le> e
      \<and> (y_pred self input \<noteq> [] \<and> y \<noteq> [] \<longrightarrow> e \<le> 1)"
proof -
  let ?e = "T_mean (T_neq (y_pred self input) y)"
  have "errors self input y_type y = Inr ?e"
    using assms by (simp add: errors_def y_pred_type_def)
  moreover have "0 \<le> ?e" by (rule T_mean_nonneg) (simp add: T_neq_range)
  moreover have "?e \<le> 1" if "y_pred self input \<noteq> []" "y \<noteq> []"
    by (rule T_mean_le_one) (simp add: T_neq_range)
  ultimately show ?thesis by blast
qed

lemma errors_all_equal:
  assumes "ndim y_type = 1" and "startswith (dtype y_type) ''int''"
    and "y = y_pred self input"
  shows "errors self input y_type y = Inr 0"
proof -
  have "T_neq y y = map (\<lambda>_. 0) y"
    by (simp add: T_neq_def zip_same_conv_map)
  then have "T_mean (T_neq y y) = 0" by (simp add: T_mean_def)
  then show ?thesis using assms by (simp add: errors_def y_pred_type_def)
qed

lemma errors_all_differ:
  assumes "ndim y_type = 1" and "startswith (dtype y_type) ''int''"
    and "length y = length (y_pred self input)" and "y \<noteq> []"
    and "\<forall>i<length y. y_pred self input ! i \<noteq> y ! i"
  shows "errors self input y_type y = Inr 1"
proof -
  have "T_neq (y_pred self input) y = map (\<lambda>_. 1) y"
    using assms(3,5) by (intro nth_equalityI) (simp_all add: T_neq_def)
  then have "T_mean (T_neq (y_pred self input) y) = 1"
    using assms(4) by (simp add: T_mean_def sum_list_triv)
  then show ?thesis using assms by (simp add: errors_def y_pred_type_def)
qed




subsection \<open>The first step of a run on 500 zero images of class 0\<close>

lemma argmax_zero:
  assumes "row \<noteq> []" and "\<forall>j<length row. 0 < j \<longrightarrow> row ! j < row ! 0"
  shows "argmax row = 0"
proof (rule ccontr)
  assume "argmax row \<noteq> 0"
  then have pos: "0 < argmax row" by simp
  from argmax_first_max [OF assms(1)]
  have lt: "argmax row < length row" and "\<forall>j<argmax row. row ! j < row ! argmax row" by blast+
  with pos have "row ! 0 < row ! argmax row" by blast
  moreover from assms(2) lt pos have "row ! argmax row < row ! 0" by blast
  ultimately show False by simp
qed

lemma mat_step_shape:
  "length (mat_step A r (T_grad_matrix f A)) = length A"
  "k < length A \<Longrightarrow> length (mat_step A r (T_grad_matrix f A) ! k) = length (A ! k)"
  by (simp_all add: mat_step_def vec_step_def T_grad_matrix_def)

lemma vec_step_shape: "length (vec_step v r (T_grad_vector f v)) = length v"
  by (simp add: vec_step_def T_grad_vector_def)

lemma train_model_shapes:
  "length (W (snd (train_model lr s off))) = length (W s)"
  "k < length (W s) \<Longrightarrow> length (W (snd (train_model lr s off)) ! k) = length (W s ! k)"
  "length (b (snd (train_model lr s off))) = length (b s)"
  by (simp_all add: train_model_def Let_def mat_step_shape vec_step_shape)

lemma first_step_b:
  fixes lr :: real and va te :: dataset
  defines "s1 \<equiv> snd (train_model lr
      (initial_state (replicate 500 (replicate 784 0), replicate 500 0) va te) 0)"
  assumes c: "c < 10"
  shows "b s1 ! c = lr * ((if c = 0 then 1 else 0) - 1 / 10)"
proof -
  let ?X = "replicate 500 (replicate 784 (0::real))" and ?y = "replicate 500 (0::int)"
  let ?st = "initial_state (?X, ?y) va te"
  let ?P = "p_y_given_x ?st ?X" and ?Y = "one_hot 10 ?y"
  have nc: "ncols (W ?st) = 10" by (simp add: initial_state_fields ncols_replicate)
  have h5: "length (b ?st) = ncols (W ?st)" by (simp add: initial_state_fields ncols_replicate)
  have h6: "\<forall>i<length ?y. 0 \<le> ?y ! i \<and> ?y ! i < int (ncols (W ?st))"
    by (simp add: initial_state_fields ncols_replicate)
  have gb: "T_grad_vector (\<lambda>v. negative_log_likelihood (?st\<lparr>b := v\<rparr>) ?X ?y) (b ?st) =
      spec_grad_b ?P (one_hot (ncols (W ?st)) ?y)"
    by (rule grad_b_closed_form [OF _ _ h5 h6]) simp_all
  have bs: "b s1 = vec_step (b ?st) lr (spec_grad_b ?P ?Y)"
    unfolding s1_def
    by (simp add: train_model_def Let_def initial_state_fields(3,4) minibatch_x_full
        minibatch_y_full gb nc)
  have Prow: "\<forall>row\<in>set ?P. length row = 10"
    using p_y_given_x_rows [OF h5, of ?X] by (simp only: nc)
  have Pne: "?P \<noteq> []" using p_y_given_x_length [of ?st ?X] by auto
  have Pent: "?P ! i ! c = 1 / 10" if "i < 500" "c < 10" for i c
    using that by (intro zero_parameters_uniform) (simp_all add: initial_state_fields)
  have "spec_grad_b ?P ?Y ! c =
      (\<Sum>i<length ?P. 1 * (?P ! i ! c - (if ?y ! i = int c then 1 else 0))) / real (length ?P)"
    using c by (intro spec_grad_b_shape(2) [OF Pne _ Prow]) (simp_all add: p_y_given_x_length)
  also have "(\<Sum>i<length ?P. 1 * (?P ! i ! c - (if ?y ! i = int c then 1 else 0))) =
      (\<Sum>i<(500::nat). 1 / 10 - (if c = 0 then 1 else 0))"
    by (rule sum.cong) (auto simp: p_y_given_x_length Pent c)
  finally have g: "spec_grad_b ?P ?Y ! c = 1 / 10 - (if c = 0 then 1 else 0)"
    by (simp add: p_y_given_x_length)
  have "length (spec_grad_b ?P ?Y) = 10"
    using spec_grad_b_shape(1) [OF Pne _ Prow, of ?y] by (simp add: p_y_given_x_length)
  then have "b s1 ! c = b ?st ! c - lr * spec_grad_b ?P ?Y ! c"
    unfolding bs using c by (intro vec_step_nth) (simp_all add: initial_state_fields)
  then show ?thesis using c by (simp add: g initial_state_fields algebra_simps)
qed

lemma initial_state_sets:
  "valid_set_x (initial_state tr va te) = fst va"
  "valid_set_y (initial_state tr va te) = snd va"
  "test_set_x (initial_state tr va te) = fst te"
  "test_set_y (initial_state tr va te) = snd te"
  "patience (initial_state tr va te) = 5000"
  "best_validation_loss (initial_state tr va te) = PosInf"
  by (simp_all add: initial_state_def Let_def)

lemma first_step_validate:
  fixes lr :: real and te :: dataset
  defines "D \<equiv> (replicate 500 (replicate 784 (0::real)), replicate 500 (0::int))"
  defines "s1 \<equiv> snd (train_model lr (initial_state D D te) 0)"
  assumes lr: "0 < lr"
  shows "validate_model s1 0 = 0"
proof -
  let ?X = "replicate 500 (replicate 784 (0::real))" and ?y = "replicate 500 (0::int)"
  let ?st = "initial_state D D te"
  have bent: "b s1 ! c = lr * ((if c = 0 then 1 else 0) - 1 / 10)" if "c < 10" for c
    unfolding s1_def D_def using that by (rule first_step_b)
  have lW: "length (W s1) = 784" and lb: "length (b s1) = 10"
    unfolding s1_def by (simp_all add: train_model_shapes initial_state_fields)
  have "length (W s1 ! 0) = 10"
    unfolding s1_def by (simp add: train_model_shapes initial_state_fields)
  moreover have "W s1 \<noteq> []" using lW by auto
  ultimately have nc: "ncols (W s1) = 10" by (simp add: ncols_nth)
  have vx: "minibatch_x (valid_set_x s1) 0 = ?X" and vy: "minibatch_y (valid_set_y s1) 0 = ?y"
    unfolding s1_def
    by (simp_all add: train_model_sets initial_state_sets D_def minibatch_x_full minibatch_y_full)
  have row: "argmax (p_y_given_x s1 ?X ! i) = 0" if i: "i < 500" for i
  proof (rule argmax_zero)
    have l: "length (p_y_given_x s1 ?X ! i) = 10"
      using i by (simp add: p_y_given_x_row_length nc lb)
    then show "p_y_given_x s1 ?X ! i \<noteq> []" by auto
    have z: "(\<Sum>k<length (W s1). replicate 784 (0::real) ! k * W s1 ! k ! j) + b s1 ! j = b s1 ! j" for j
    proof -
      have "(\<Sum>k<length (W s1). replicate 784 (0::real) ! k * W s1 ! k ! j) = 0"
        by (rule sum.neutral) (simp add: lW)
      then show ?thesis by simp
    qed
    have e: "p_y_given_x s1 ?X ! i ! j = exp (b s1 ! j) / (\<Sum>c<10. exp (b s1 ! c))" if "j < 10" for j
      using p_y_given_x_entry [of i ?X s1 j] i that by (simp add: nc lb z)
    have "(0::nat) \<in> {..<10}" by simp
    then have "{..<(10::nat)} \<noteq> {}" by blast
    then have pos: "0 < (\<Sum>c<(10::nat). exp (b s1 ! c))" by (intro sum_pos) simp_all
    show "\<forall>j<length (p_y_given_x s1 ?X ! i). 0 < j \<longrightarrow>
        p_y_given_x s1 ?X ! i ! j < p_y_given_x s1 ?X ! i ! 0"
    proof (intro allI impI)
      fix j assume j: "j < length (p_y_given_x s1 ?X ! i)" "0 < j"
      then have j10: "j < 10" using l by simp
      have "b s1 ! j < b s1 ! 0" using j j10 lr by (simp add: bent)
      then have "exp (b s1 ! j) < exp (b s1 ! 0)" by simp
      then show "p_y_given_x s1 ?X ! i ! j < p_y_given_x s1 ?X ! i ! 0"
        using pos j10 by (simp add: e divide_strict_right_mono)
    qed
  qed
  have "y_pred s1 ?X = ?y"
    by (rule nth_equalityI)
      (simp_all add: y_pred_def T_argmax_def p_y_given_x_length row)
  then have "T_neq (y_pred s1 ?X) ?y = replicate 500 0"
    by (simp add: T_neq_def zip_replicate)
  then show ?thesis by (simp add: validate_model_def vx vy T_mean_def sum_list_replicate)
qed

lemma first_step_validation_loss:
  fixes lr :: real and te :: dataset
  defines "D \<equiv> (replicate 500 (replicate 784 (0::real)), replicate 500 (0::int))"
  assumes lr: "0 < lr"
  shows "validation_loss exact_numerics (snd (train_model lr (initial_state D D te) 0)) = Fin 0"
proof -
  let ?s1 = "snd (train_model lr (initial_state D D te) 0)"
  have "n_batches (valid_set_x ?s1) = 1"
    by (simp add: train_model_sets initial_state_sets D_def n_batches_def batch_size_def)
  moreover have "xrange 1 = [0]" by (simp add: xrange_def)
  moreover have "validate_model ?s1 0 = 0"
    unfolding D_def using lr by (rule first_step_validate)
  ultimately show ?thesis
    by (simp add: validation_loss_def Let_def numpy_mean_def exact_numerics_def)
qed

lemma exact_numerics_sound: "sound_numerics exact_numerics"
proof -
  have "0 \<le> sum_list xs / real (length xs)" if "\<forall>x\<in>set xs. 0 \<le> x \<and> x \<le> 1" for xs :: "real list"
    using that by (intro divide_nonneg_nonneg sum_list_nonneg) auto
  moreover have "a * c \<le> a" if "0 \<le> a" "0 \<le> c" "c \<le> 1" for a c :: real
    using that by (simp add: mult_left_le)
  ultimately show ?thesis by (simp add: sound_numerics_def exact_numerics_def)
qed

subsection \<open>The examples after the last full mini-batch are not read\<close>


























subsection \<open>Probabilities at the bounds 0 and 1\<close>


text \<open>With the logits 0 and 2000 the probability of the first class is positive and
  below \<open>1 / 2 ^ 1075\<close>, half the smallest positive double: the float nearest to it is 0.\<close>

lemma exp_2000: "(2::real) ^ 1075 < exp 2000"
proof -
  have "(2::real) \<le> exp 1" using exp_ge_add_one_self [of "1::real"] by simp
  then have "(2::real) ^ 2000 \<le> exp 1 ^ 2000" by (intro power_mono) simp_all
  also have "exp (1::real) ^ 2000 = exp 2000"
    using exp_of_nat_mult [of 2000 "1::real"] by simp
  finally have "(2::real) ^ 2000 \<le> exp 2000" .
  moreover have "(2::real) ^ 1075 < 2 ^ 2000" by (rule power_strict_increasing) simp_all
  ultimately show ?thesis by linarith
qed

lemma p_y_given_x_underflow:
  "p_y_given_x \<lparr>W = [[0, 2000]], b = [0, 0]\<rparr> [[1]] ! 0 ! 0 = 1 / (1 + exp 2000)"
  "0 < p_y_given_x \<lparr>W = [[0, 2000]], b = [0, 0]\<rparr> [[1]] ! 0 ! 0"
  "p_y_given_x \<lparr>W = [[0, 2000]], b = [0, 0]\<rparr> [[1]] ! 0 ! 0 < 1 / 2 ^ 1075"
proof -
  show e: "p_y_given_x \<lparr>W = [[0, 2000]], b = [0, 0]\<rparr> [[1]] ! 0 ! 0 = 1 / (1 + exp 2000)"
    by (simp add: p_y_given_x_def softmax_def add_row_def dot_def ncols_def
        upt_rec [of 0] upt_rec [of "Suc _"] numeral_2_eq_2)
  have pos: "(0::real) < 1 + exp 2000" by (simp add: add_pos_pos)
  show "0 < p_y_given_x \<lparr>W = [[0, 2000]], b = [0, 0]\<rparr> [[1]] ! 0 ! 0"
    unfolding e using pos by simp
  have "(2::real) ^ 1075 < 1 + exp 2000" using exp_2000 by linarith
  then have "1 / (1 + exp 2000) < 1 / (2::real) ^ 1075"
    by (intro divide_strict_left_mono mult_pos_pos pos) simp_all
  then show "p_y_given_x \<lparr>W = [[0, 2000]], b = [0, 0]\<rparr> [[1]] ! 0 ! 0 < 1 / 2 ^ 1075"
    unfolding e .
qed

lemma LogisticRegression_init_zeros:
  "W (LogisticRegression_init n_in n_out) = replicate n_in (replicate n_out 0)"
  "b (LogisticRegression_init n_in n_out) = replicate n_out 0"
  by (simp_all add: LogisticRegression_init_def)

section \<open>The claims\<close>

text \<open>
  C1. The iterations the loop executes are \<open>0, 1, ..., k\<close> in this order, each started
  in the state the one before left; \<open>k\<close> is the first index at which, after the body,
  \<open>patience \<le> iter\<close> holds for the value \<open>patience\<close> has then, or the last index
  \<open>n_iter * n_minibatches - 1\<close> if that comes first; and the state the run ends in is
  the state after iteration \<open>k\<close>: no training step follows it.
\<close>

theorem loop_stops:
  fixes nm :: numerics and learning_rate :: real and n_iter :: int
    and train_set valid_set test_set :: dataset
  defines "ex \<equiv> sgd_iterations nm learning_rate n_iter (train_set, valid_set, test_set)"
    and "n_total \<equiv> n_iter * n_minibatches_of train_set"
  shows "map fst ex = xrange (int (length ex))
    \<and> int (length ex) \<le> max 0 n_total
    \<and> (0 < n_total \<longrightarrow> ex \<noteq> [])
    \<and> (ex \<noteq> [] \<longrightarrow> fst (snd (ex ! 0)) = initial_state train_set valid_set test_set)
    \<and> (\<forall>j. Suc j < length ex \<longrightarrow>
          \<not> patience (snd (snd (ex ! j))) \<le> int j
          \<and> fst (snd (ex ! Suc j)) = snd (snd (ex ! j)))
    \<and> (ex \<noteq> [] \<longrightarrow>
          patience (snd (snd (last ex))) \<le> int (length ex) - 1 \<or> int (length ex) - 1 = n_total - 1)
    \<and> fst (sgd_optimization_mnist nm learning_rate n_iter (train_set, valid_set, test_set) clock) =
        (if ex = [] then initial_state train_set valid_set test_set else snd (snd (last ex)))"
proof -
  let ?n = "n_minibatches_of train_set"
  let ?s0 = "initial_state train_set valid_set test_set"
  have ex: "ex = executed nm learning_rate ?n ?s0 (xrange n_total)"
    by (simp add: ex_def n_total_def sgd_iterations_def)
  have a: "map fst ex = xrange (int (length ex))"
    unfolding ex by (rule executed_xrange_fst)
  have len: "length ex \<le> nat n_total"
    unfolding ex using executed_length [of nm learning_rate ?n ?s0 "xrange n_total"]
    by (simp add: xrange_length)
  then have b: "int (length ex) \<le> max 0 n_total" by simp
  have c: "0 < n_total \<longrightarrow> ex \<noteq> []"
  proof
    assume "0 < n_total"
    then have "xrange n_total \<noteq> []" using xrange_length [of n_total] by auto
    then show "ex \<noteq> []" unfolding ex by (rule executed_nonempty)
  qed
  have d: "ex \<noteq> [] \<longrightarrow> fst (snd (ex ! 0)) = ?s0"
    unfolding ex by (simp add: executed_first)
  have e: "\<forall>j. Suc j < length ex \<longrightarrow>
          \<not> patience (snd (snd (ex ! j))) \<le> int j \<and> fst (snd (ex ! Suc j)) = snd (snd (ex ! j))"
  proof (intro allI impI)
    fix j assume j: "Suc j < length ex"
    then have "fst (ex ! j) = int j"
      unfolding ex by (simp add: executed_xrange_nth)
    moreover have "\<not> patience (snd (snd (ex ! j))) \<le> fst (ex ! j)"
      using j unfolding ex by (rule executed_continue)
    moreover have "fst (snd (ex ! Suc j)) = snd (snd (ex ! j))"
      using j unfolding ex by (rule executed_chain)
    ultimately show "\<not> patience (snd (snd (ex ! j))) \<le> int j
        \<and> fst (snd (ex ! Suc j)) = snd (snd (ex ! j))" by simp
  qed
  have f: "ex \<noteq> [] \<longrightarrow>
          patience (snd (snd (last ex))) \<le> int (length ex) - 1 \<or> int (length ex) - 1 = n_total - 1"
  proof
    assume ne: "ex \<noteq> []"
    then have "fst (last ex) = int (length ex - 1)"
      unfolding ex by (simp add: last_conv_nth executed_xrange_nth)
    then have l: "fst (last ex) = int (length ex) - 1" using ne by (cases ex) auto
    have "patience (snd (snd (last ex))) \<le> fst (last ex) \<or> length ex = length (xrange n_total)"
      using ne unfolding ex by (rule executed_last)
    then show "patience (snd (snd (last ex))) \<le> int (length ex) - 1
        \<or> int (length ex) - 1 = n_total - 1"
      using l ne by (auto simp: xrange_length)
  qed
  have g: "fst (sgd_optimization_mnist nm learning_rate n_iter (train_set, valid_set, test_set) clock) =
        (if ex = [] then ?s0 else snd (snd (last ex)))"
    unfolding ex by (simp add: sgd_optimization_mnist_def n_total_def for_loop_executed Let_def
        split: prod.splits)
  from a b c d e f g show ?thesis by blast
qed

theorem loop_stops_witness:
  "length (sgd_iterations exact_numerics (13 / 100) 6000
      ((replicate 500 (replicate 784 0), replicate 500 0), ([], []), ([], []))) = 5001"
proof -
  let ?tr = "(replicate 500 (replicate 784 (0::real)), replicate 500 (0::int))"
  let ?ex = "sgd_iterations exact_numerics (13 / 100) 6000 (?tr, ([], []), ([], []))"
  let ?s0 = "initial_state ?tr ([], []) ([], [])"
  note th = loop_stops [of exact_numerics "13 / 100" 6000 ?tr "([], [])" "([], [])" "(0, 0)"]
  have tot: "6000 * n_minibatches_of ?tr = 6000" by (simp add: n_minibatches_500)
  have ex: "?ex = executed exact_numerics (13 / 100) 1 ?s0 (xrange 6000)"
    by (simp add: sgd_iterations_def n_minibatches_500)
  have pat: "patience (snd (snd x)) = 5000" if "x \<in> set ?ex" for x
    using executed_no_validation [OF initial_valid, of x exact_numerics "13 / 100" 1 ?tr "[]" "([], [])" "xrange 6000"] that
    unfolding ex by (simp add: initial_state_def Let_def)
  from th tot have ne: "?ex \<noteq> []" by simp
  have up: "length ?ex \<le> 5001"
  proof (rule ccontr)
    assume "\<not> length ?ex \<le> 5001"
    then have l: "Suc 5000 < length ?ex" by simp
    with th have "\<not> patience (snd (snd (?ex ! 5000))) \<le> int 5000" by blast
    moreover have "?ex ! 5000 \<in> set ?ex" using l by simp
    ultimately show False using pat by simp
  qed
  have "patience (snd (snd (last ?ex))) = 5000" using ne by (simp add: pat)
  with th ne tot have "5000 \<le> int (length ?ex) - 1 \<or> int (length ?ex) - 1 = 6000 - 1"
    by simp
  with up show ?thesis by linarith
qed

text \<open>
  C2. \<open>patience\<close> is 5000 before the loop and never decreases: over the iterations the
  loop executes the values after the body are sorted, and in every iteration the value
  after the body is \<open>max(patience, iter * patience_increase)\<close> when the iteration makes
  a validation check (\<open>(iter + 1) % validation_frequency == 0\<close>) whose loss is strictly
  below \<open>best_validation_loss * improvement_threshold\<close>, and the value before the body
  otherwise. The loss, the product and the comparison are the ones the machine computes:
  the statement holds for every arithmetic \<open>nm\<close> with the two properties of
  \<open>sound_numerics\<close>, for the iterations of a run (the second conjunct) as for every
  other list of indices and validation frequency. In the witness the check of iteration 0
  of a run finds the loss 0 below \<open>inf * 0.995\<close>, and the same check at index 3000
  raises \<open>patience\<close> to 6000.
\<close>

theorem patience_nondecreasing:
  fixes nm :: numerics and learning_rate :: real and n n_iter :: int and its :: "int list"
    and train_set valid_set test_set :: dataset
  defines "s0 \<equiv> initial_state train_set valid_set test_set"
  defines "ex \<equiv> executed nm learning_rate n s0 its"
  assumes nm: "sound_numerics nm"
  shows "patience s0 = 5000
    \<and> sgd_iterations nm learning_rate n_iter (train_set, valid_set, test_set) =
        executed nm learning_rate (n_minibatches_of train_set) s0
          (xrange (n_iter * n_minibatches_of train_set))
    \<and> sorted (map (\<lambda>x. patience (snd (snd x))) ex)
    \<and> (\<forall>x \<in> set ex. case x of (iter, s, s') \<Rightarrow>
          5000 \<le> patience s \<and> patience s \<le> patience s'
          \<and> patience s' =
              (if (iter + 1) mod n = 0
                  \<and> py_less (validation_loss nm (snd (train_model learning_rate s (iter mod n * batch_size))))
                       (py_times nm (best_validation_loss s) improvement_threshold)
               then max (patience s) (iter * patience_increase) else patience s))"
proof -
  have p0: "patience s0 = 5000" by (simp add: s0_def initial_state_def Let_def)
  have b0: "best_validation_loss s0 = PosInf
      \<or> (\<exists>c. 0 \<le> c \<and> best_validation_loss s0 = Fin c)"
    by (simp add: s0_def initial_state_def Let_def)
  have run: "sgd_iterations nm learning_rate n_iter (train_set, valid_set, test_set) =
        executed nm learning_rate (n_minibatches_of train_set) s0
          (xrange (n_iter * n_minibatches_of train_set))"
    by (simp add: sgd_iterations_def s0_def)
  have srt: "sorted (map (\<lambda>x. patience (snd (snd x))) ex)"
    unfolding ex_def using executed_sorted by blast
  have "\<forall>x \<in> set ex. case x of (iter, s, s') \<Rightarrow>
          5000 \<le> patience s \<and> patience s \<le> patience s'
          \<and> patience s' =
              (if (iter + 1) mod n = 0
                  \<and> py_less (validation_loss nm (snd (train_model learning_rate s (iter mod n * batch_size))))
                       (py_times nm (best_validation_loss s) improvement_threshold)
               then max (patience s) (iter * patience_increase) else patience s)"
  proof
    fix x assume "x \<in> set ex"
    then have x: "x \<in> set (executed nm learning_rate n s0 its)" by (simp add: ex_def)
    obtain iter s s' where xe: "x = (iter, s, s')" by (cases x)
    from executed_invariant [OF nm b0 x] xe p0
    have bs: "best_validation_loss s = PosInf \<or> (\<exists>c. 0 \<le> c \<and> best_validation_loss s = Fin c)"
      and ps: "5000 \<le> patience s" and s': "s' = iteration nm learning_rate n s iter"
      by simp_all
    let ?vl = "validation_loss nm (snd (train_model learning_rate s (iter mod n * batch_size)))"
    have imp: "py_less ?vl (py_times nm (best_validation_loss s) improvement_threshold)
        \<Longrightarrow> py_less ?vl (best_validation_loss s)"
      using nm bs by (rule threshold_implies_less)
    have "patience s' =
              (if (iter + 1) mod n = 0
                  \<and> py_less ?vl (py_times nm (best_validation_loss s) improvement_threshold)
               then max (patience s) (iter * patience_increase) else patience s)"
      unfolding s' iteration_patience using imp by auto
    moreover have "patience s \<le> patience s'" unfolding s' by (rule iteration_patience_mono)
    ultimately show "case x of (iter, s, s') \<Rightarrow>
          5000 \<le> patience s \<and> patience s \<le> patience s'
          \<and> patience s' =
              (if (iter + 1) mod n = 0
                  \<and> py_less (validation_loss nm (snd (train_model learning_rate s (iter mod n * batch_size))))
                       (py_times nm (best_validation_loss s) improvement_threshold)
               then max (patience s) (iter * patience_increase) else patience s)"
      using ps xe by simp
  qed
  with p0 run srt show ?thesis by blast
qed

theorem patience_nondecreasing_witness:
  "sound_numerics exact_numerics
   \<and> sgd_iterations exact_numerics (13 / 100) 1
        ((replicate 500 (replicate 784 0), replicate 500 0),
         (replicate 500 (replicate 784 0), replicate 500 0), ([], [])) =
      executed exact_numerics (13 / 100) 1
        (initial_state (replicate 500 (replicate 784 0), replicate 500 0)
           (replicate 500 (replicate 784 0), replicate 500 0) ([], []))
        [0]
   \<and> py_less (validation_loss exact_numerics (snd (train_model (13 / 100)
        (initial_state (replicate 500 (replicate 784 0), replicate 500 0)
           (replicate 500 (replicate 784 0), replicate 500 0) ([], [])) 0)))
        (py_times exact_numerics PosInf improvement_threshold)
   \<and> patience (snd (snd (hd (executed exact_numerics (13 / 100) 1
        (initial_state (replicate 500 (replicate 784 0), replicate 500 0)
           (replicate 500 (replicate 784 0), replicate 500 0) ([], []))
        [0])))) = max 5000 (0 * 2)
   \<and> patience (snd (snd (hd (executed exact_numerics (13 / 100) 1
        (initial_state (replicate 500 (replicate 784 0), replicate 500 0)
           (replicate 500 (replicate 784 0), replicate 500 0) ([], []))
        [3000])))) = 6000"
proof -
  let ?D = "(replicate 500 (replicate 784 (0::real)), replicate 500 (0::int))"
  let ?st = "initial_state ?D ?D ([], [])"
  let ?vl = "validation_loss exact_numerics (snd (train_model (13 / 100) ?st 0))"
  note snd = exact_numerics_sound
  have vl: "?vl = Fin 0" by (rule first_step_validation_loss) simp
  have cond: "py_less ?vl (py_times exact_numerics PosInf improvement_threshold)"
    by (simp add: vl improvement_threshold_def)
  have one: "n_minibatches_of ?D = 1"
    by (simp add: n_minibatches_of_def n_batches_def batch_size_def)
  have at: "patience (snd (snd (hd (executed exact_numerics (13 / 100) 1 ?st [k])))) =
      max 5000 (k * 2)" for k
  proof -
    let ?ex = "executed exact_numerics (13 / 100) 1 ?st [k]"
    obtain s' where ex: "?ex = [(k, ?st, s')]" by (simp add: Let_def)
    then have mem: "(k, ?st, s') \<in> set ?ex" by simp
    from patience_nondecreasing [OF snd, where train_set = ?D and valid_set = ?D
        and test_set = "([], [])" and learning_rate = "13 / 100" and n = 1 and its = "[k]"
        and n_iter = 1] mem
    have "patience s' =
        (if (k + 1) mod 1 = 0
            \<and> py_less (validation_loss exact_numerics (snd (train_model (13 / 100) ?st (k mod 1 * batch_size))))
                 (py_times exact_numerics (best_validation_loss ?st) improvement_threshold)
         then max (patience ?st) (k * patience_increase) else patience ?st)"
      by fastforce
    then have "patience s' = max 5000 (k * 2)"
      using cond by (simp add: initial_state_sets patience_increase_def)
    then show ?thesis unfolding ex by simp
  qed
  have run: "sgd_iterations exact_numerics (13 / 100) 1 (?D, ?D, ([], [])) =
      executed exact_numerics (13 / 100) 1 ?st [0]"
    using patience_nondecreasing [OF snd, where train_set = ?D and valid_set = ?D
        and test_set = "([], [])" and learning_rate = "13 / 100" and n = 1 and its = "[]"
        and n_iter = 1]
    by (simp add: one xrange_def)
  from snd run cond at [of 0] at [of 3000] show ?thesis by simp
qed

text \<open>
  C3. For a batch \<open>X\<close> of at least one row, labels \<open>y\<close> that are classes, one for each
  row, and parameters of matching shapes, the gradient \<open>T.grad\<close> takes of the mean
  negative log-likelihood is the closed form: \<open>X\<^sup>T (P - Y) / batch_size\<close> with respect to
  \<open>W\<close> and the column mean of \<open>P - Y\<close> with respect to \<open>b\<close>, for the probabilities \<open>P\<close>
  and the one-hot matrix \<open>Y\<close> of the labels; and when this batch is the mini-batch of
  the store at the offset, \<open>train_model\<close> leaves \<open>W - learning_rate * \<partial>loss/\<partial>W\<close> in \<open>W\<close>
  and \<open>b - learning_rate * \<partial>loss/\<partial>b\<close> in \<open>b\<close>, entry by entry.
\<close>

theorem gradient_closed_form:
  fixes s :: "'a store_scheme" and X :: "real list list" and y :: "int list"
  defines "P \<equiv> p_y_given_x s X" and "Y \<equiv> one_hot (ncols (W s)) y"
  assumes X: "X \<noteq> []" and y: "length y = length X"
    and Xr: "\<forall>row\<in>set X. length row = length (W s)"
    and Wr: "\<forall>row\<in>set (W s). length row = ncols (W s)"
    and bl: "length (b s) = ncols (W s)"
    and lab: "\<forall>i<length y. 0 \<le> y ! i \<and> y ! i < int (ncols (W s))"
  shows "T_grad_matrix (\<lambda>A. negative_log_likelihood (s\<lparr>W := A\<rparr>) X y) (W s) = spec_grad_W X P Y
    \<and> T_grad_vector (\<lambda>v. negative_log_likelihood (s\<lparr>b := v\<rparr>) X y) (b s) = spec_grad_b P Y
    \<and> (\<forall>learning_rate minibatch_offset.
          minibatch_x (train_set_x s) minibatch_offset = X
          \<and> minibatch_y (train_set_y s) minibatch_offset = y \<longrightarrow>
          W (snd (train_model learning_rate s minibatch_offset)) =
            mat_step (W s) learning_rate (spec_grad_W X P Y)
          \<and> b (snd (train_model learning_rate s minibatch_offset)) =
            vec_step (b s) learning_rate (spec_grad_b P Y)
          \<and> (\<forall>k<length (W s). \<forall>c<ncols (W s).
                W (snd (train_model learning_rate s minibatch_offset)) ! k ! c =
                  W s ! k ! c - learning_rate * spec_grad_W X P Y ! k ! c)
          \<and> (\<forall>c<ncols (W s).
                b (snd (train_model learning_rate s minibatch_offset)) ! c =
                  b s ! c - learning_rate * spec_grad_b P Y ! c))"
proof -
  have gW: "T_grad_matrix (\<lambda>A. negative_log_likelihood (s\<lparr>W := A\<rparr>) X y) (W s) = spec_grad_W X P Y"
    unfolding P_def Y_def using X y Xr Wr bl lab by (rule grad_W_closed_form)
  have gb: "T_grad_vector (\<lambda>v. negative_log_likelihood (s\<lparr>b := v\<rparr>) X y) (b s) = spec_grad_b P Y"
    unfolding P_def Y_def using X y bl lab by (rule grad_b_closed_form)
  have Pne: "P \<noteq> []" using X p_y_given_x_length [of s X] by (auto simp: P_def)
  have shW: "length (spec_grad_W X P Y) = length (W s)"
    "\<And>k. k < length (W s) \<Longrightarrow> length (spec_grad_W X P Y ! k) = ncols (W s)"
    unfolding P_def Y_def
    using spec_grad_W_shape(1,2) [OF X p_y_given_x_length y Xr p_y_given_x_rows [OF bl]]
    by simp_all
  have shb: "length (spec_grad_b P Y) = ncols (W s)"
    unfolding P_def Y_def
    using spec_grad_b_shape(1) [OF _ _ p_y_given_x_rows [OF bl], of X y] Pne y
    by (simp add: p_y_given_x_length P_def)
  have step: "W (snd (train_model lr s off)) = mat_step (W s) lr (spec_grad_W X P Y)
      \<and> b (snd (train_model lr s off)) = vec_step (b s) lr (spec_grad_b P Y)"
    if "minibatch_x (train_set_x s) off = X" "minibatch_y (train_set_y s) off = y" for lr off
    using that gW gb by (simp add: train_model_def Let_def)
  have entW: "mat_step (W s) lr (spec_grad_W X P Y) ! k ! c =
      W s ! k ! c - lr * spec_grad_W X P Y ! k ! c" if "k < length (W s)" "c < ncols (W s)" for lr k c
  proof -
    have "W s ! k \<in> set (W s)" using that(1) by simp
    then have "length (W s ! k) = ncols (W s)" using Wr by simp
    then show ?thesis using that shW by (simp add: mat_step_nth)
  qed
  have entb: "vec_step (b s) lr (spec_grad_b P Y) ! c = b s ! c - lr * spec_grad_b P Y ! c"
    if "c < ncols (W s)" for lr c
    using that shb bl by (simp add: vec_step_nth)
  from gW gb step entW entb show ?thesis by simp
qed

theorem gradient_closed_form_witness:
  "T_grad_matrix
     (\<lambda>A. negative_log_likelihood
        (\<lparr>W = [[0, 0], [0, 0]], b = [0, 0], train_set_x = [], train_set_y = [],
          valid_set_x = [], valid_set_y = [], test_set_x = [], test_set_y = []\<rparr>\<lparr>W := A\<rparr>)
        [[1, 1]] [0])
     [[0, 0], [0, 0]] = [[- (1 / 2), 1 / 2], [- (1 / 2), 1 / 2]]
   \<and> T_grad_vector
     (\<lambda>v. negative_log_likelihood
        (\<lparr>W = [[0, 0], [0, 0]], b = [0, 0], train_set_x = [], train_set_y = [],
          valid_set_x = [], valid_set_y = [], test_set_x = [], test_set_y = []\<rparr>\<lparr>b := v\<rparr>)
        [[1, 1]] [0])
     [0, 0] = [- (1 / 2), 1 / 2]
   \<and> b (snd (train_model (13 / 100)
        (initial_state (replicate 500 (replicate 784 0), replicate 500 0) ([], []) ([], [])) 0)) ! 0
      = 117 / 1000
   \<and> b (snd (train_model (13 / 100)
        (initial_state (replicate 500 (replicate 784 0), replicate 500 0) ([], []) ([], [])) 0)) ! 1
      = - (13 / 1000)"
proof -
  let ?s = "\<lparr>W = [[0, 0], [0, 0]], b = [0, 0], train_set_x = [], train_set_y = [],
          valid_set_x = [], valid_set_y = [], test_set_x = [], test_set_y = []\<rparr>"
  have p: "p_y_given_x ?s [[1, 1]] = [[1 / 2, 1 / 2]]"
    by (simp add: p_y_given_x_def softmax_def add_row_def dot_def ncols_def
        upt_rec [of 0] upt_rec [of "Suc _"] numeral_2_eq_2)
  have gW: "spec_grad_W [[1, 1]] [[1 / 2, 1 / 2]] (one_hot 2 [0]) =
      [[- (1 / 2), 1 / 2], [- (1 / 2), 1 / 2]]"
    by (simp add: spec_grad_W_def dot_def mat_transpose_def mat_sub_def one_hot_def ncols_def
        upt_rec [of 0] upt_rec [of "Suc _"] numeral_2_eq_2)
  have gb: "spec_grad_b [[1 / 2, 1 / 2]] (one_hot 2 [0]) = [- (1 / 2), 1 / 2]"
    by (simp add: spec_grad_b_def mat_sub_def one_hot_def ncols_def T_mean_def
        upt_rec [of 0] upt_rec [of "Suc _"] numeral_2_eq_2)
  have small: "T_grad_matrix (\<lambda>A. negative_log_likelihood (?s\<lparr>W := A\<rparr>) [[1, 1]] [0]) (W ?s) =
        spec_grad_W [[1, 1]] (p_y_given_x ?s [[1, 1]]) (one_hot (ncols (W ?s)) [0])
      \<and> T_grad_vector (\<lambda>v. negative_log_likelihood (?s\<lparr>b := v\<rparr>) [[1, 1]] [0]) (b ?s) =
        spec_grad_b (p_y_given_x ?s [[1, 1]]) (one_hot (ncols (W ?s)) [0])"
    using gradient_closed_form [of "[[1, 1]]" "[0]" ?s] by (simp add: ncols_def)
  let ?X = "replicate 500 (replicate 784 (0::real))" and ?y = "replicate 500 (0::int)"
  let ?st = "initial_state (?X, ?y) ([], []) ([], [])"
  let ?P = "p_y_given_x ?st ?X" and ?Y = "one_hot 10 ?y"
  have nc: "ncols (W ?st) = 10" by (simp add: initial_state_fields ncols_replicate)
  have h1: "?X \<noteq> []" by simp
  have h2: "length ?y = length ?X" by simp
  have h3: "\<forall>row\<in>set ?X. length row = length (W ?st)" by (simp add: initial_state_fields)
  have h4: "\<forall>row\<in>set (W ?st). length row = ncols (W ?st)"
    by (simp add: initial_state_fields ncols_replicate)
  have h5: "length (b ?st) = ncols (W ?st)" by (simp add: initial_state_fields ncols_replicate)
  have h6: "\<forall>i<length ?y. 0 \<le> ?y ! i \<and> ?y ! i < int (ncols (W ?st))"
    by (simp add: initial_state_fields ncols_replicate)
  have h7: "minibatch_x (train_set_x ?st) 0 = ?X \<and> minibatch_y (train_set_y ?st) 0 = ?y"
    by (simp add: initial_state_fields minibatch_x_full minibatch_y_full)
  have "\<forall>c<ncols (W ?st). b (snd (train_model (13 / 100) ?st 0)) ! c =
      b ?st ! c - 13 / 100 * spec_grad_b ?P (one_hot (ncols (W ?st)) ?y) ! c"
    using gradient_closed_form [OF h1 h2 h3 h4 h5 h6] h7 by blast
  then have big: "\<forall>c<10. b (snd (train_model (13 / 100) ?st 0)) ! c =
      b ?st ! c - 13 / 100 * spec_grad_b ?P ?Y ! c"
    by (simp only: nc)
  have Prow: "\<forall>row\<in>set ?P. length row = 10"
    using p_y_given_x_rows [OF h5, of ?X] by (simp only: nc)
  have Pne: "?P \<noteq> []" using p_y_given_x_length [of ?st ?X] by auto
  have Pent: "?P ! i ! c = 1 / 10" if "i < 500" "c < 10" for i c
    using that by (intro zero_parameters_uniform) (simp_all add: initial_state_fields)
  have g: "spec_grad_b ?P ?Y ! c = (\<Sum>i<(500::nat). 1 / 10 - (if c = 0 then 1 else 0)) / 500"
    if c: "c < 10" for c
  proof -
    have "spec_grad_b ?P ?Y ! c =
        (\<Sum>i<length ?P. 1 * (?P ! i ! c - (if ?y ! i = int c then 1 else 0))) / real (length ?P)"
      using c by (intro spec_grad_b_shape(2) [OF Pne _ Prow]) (simp_all add: p_y_given_x_length)
    also have "(\<Sum>i<length ?P. 1 * (?P ! i ! c - (if ?y ! i = int c then 1 else 0))) =
        (\<Sum>i<(500::nat). 1 / 10 - (if c = 0 then 1 else 0))"
      by (rule sum.cong) (auto simp: p_y_given_x_length Pent c)
    finally show ?thesis by (simp add: p_y_given_x_length)
  qed
  have "b (snd (train_model (13 / 100) ?st 0)) ! 0 = 117 / 1000"
    using big g [of 0] by (simp add: initial_state_fields)
  moreover have "b (snd (train_model (13 / 100) ?st 0)) ! 1 = - (13 / 1000)"
    using big g [of 1] by (simp add: initial_state_fields)
  moreover have ncs: "ncols (W ?s) = 2" by (simp add: ncols_def)
  have "T_grad_matrix (\<lambda>A. negative_log_likelihood (?s\<lparr>W := A\<rparr>) [[1, 1]] [0]) (W ?s) =
        [[- (1 / 2), 1 / 2], [- (1 / 2), 1 / 2]]
      \<and> T_grad_vector (\<lambda>v. negative_log_likelihood (?s\<lparr>b := v\<rparr>) [[1, 1]] [0]) (b ?s) =
        [- (1 / 2), 1 / 2]"
    using small by (simp only: ncs p gW gb)
  ultimately show ?thesis by simp
qed

text \<open>
  C4. One call of \<open>train_model\<close> returns the negative log-likelihood of the mini-batch
  under the parameters the store holds when the call is made, and the store after the
  call differs from that store in \<open>W\<close> and \<open>b\<close> only: the six dataset arrays, and
  whatever extends the store (for the loop: \<open>patience\<close>, \<open>best_validation_loss\<close>,
  \<open>test_score\<close>, \<open>best_params\<close>), are unchanged.
\<close>

theorem train_model_frame:
  fixes s :: "'a store_scheme" and t :: state
  shows "fst (train_model learning_rate s minibatch_offset) =
      negative_log_likelihood s (minibatch_x (train_set_x s) minibatch_offset)
        (minibatch_y (train_set_y s) minibatch_offset)
    \<and> snd (train_model learning_rate s minibatch_offset) =
        s\<lparr>W := W (snd (train_model learning_rate s minibatch_offset)),
          b := b (snd (train_model learning_rate s minibatch_offset))\<rparr>
    \<and> train_set_x (snd (train_model learning_rate s minibatch_offset)) = train_set_x s
    \<and> train_set_y (snd (train_model learning_rate s minibatch_offset)) = train_set_y s
    \<and> valid_set_x (snd (train_model learning_rate s minibatch_offset)) = valid_set_x s
    \<and> valid_set_y (snd (train_model learning_rate s minibatch_offset)) = valid_set_y s
    \<and> test_set_x (snd (train_model learning_rate s minibatch_offset)) = test_set_x s
    \<and> test_set_y (snd (train_model learning_rate s minibatch_offset)) = test_set_y s
    \<and> store.more (snd (train_model learning_rate s minibatch_offset)) = store.more s
    \<and> patience (snd (train_model learning_rate t minibatch_offset)) = patience t
    \<and> best_validation_loss (snd (train_model learning_rate t minibatch_offset)) = best_validation_loss t
    \<and> test_score (snd (train_model learning_rate t minibatch_offset)) = test_score t
    \<and> best_params (snd (train_model learning_rate t minibatch_offset)) = best_params t"
  by (simp add: train_model_def Let_def)




text \<open>
  C6. For every row \<open>i\<close> of the input of a classifier with at least one class,
  \<open>y_pred\<close> has one label per row, and the label of row \<open>i\<close> is a column of row \<open>i\<close>
  of \<open>p_y_given_x\<close> that holds the maximum of the row, with every column before it
  strictly smaller: the lowest index that attains the maximum.
\<close>

theorem y_pred_first_maximum:
  assumes "i < length input" and "0 < ncols (W self)" and "b self \<noteq> []"
  shows "length (y_pred self input) = length input
    \<and> 0 \<le> y_pred self input ! i
    \<and> nat (y_pred self input ! i) < length (p_y_given_x self input ! i)
    \<and> p_y_given_x self input ! i ! nat (y_pred self input ! i) =
        Max (set (p_y_given_x self input ! i))
    \<and> (\<forall>j < nat (y_pred self input ! i).
          p_y_given_x self input ! i ! j < p_y_given_x self input ! i ! nat (y_pred self input ! i))"
proof -
  let ?row = "p_y_given_x self input ! i"
  have "length ?row \<noteq> 0" using assms by (simp add: p_y_given_x_row_length)
  then have ne: "?row \<noteq> []" by simp
  have y: "y_pred self input ! i = int (argmax ?row)"
    using assms(1) by (simp add: y_pred_def T_argmax_def p_y_given_x_length)
  have "length (y_pred self input) = length input"
    by (simp add: y_pred_def T_argmax_def p_y_given_x_length)
  with argmax_first_max [OF ne] y show ?thesis by auto
qed

theorem y_pred_first_maximum_witness:
  "y_pred \<lparr>W = [[1, 2, 2], [0, 1, 1]], b = [0, 0, 0]\<rparr> [[1, 0]] = [1]
   \<and> p_y_given_x \<lparr>W = [[1, 2, 2], [0, 1, 1]], b = [0, 0, 0]\<rparr> [[1, 0]] ! 0 ! 1 =
       Max (set (p_y_given_x \<lparr>W = [[1, 2, 2], [0, 1, 1]], b = [0, 0, 0]\<rparr> [[1, 0]] ! 0))
   \<and> p_y_given_x \<lparr>W = [[1, 2, 2], [0, 1, 1]], b = [0, 0, 0]\<rparr> [[1, 0]] ! 0 ! 1 =
       p_y_given_x \<lparr>W = [[1, 2, 2], [0, 1, 1]], b = [0, 0, 0]\<rparr> [[1, 0]] ! 0 ! 2"
proof -
  let ?c = "\<lparr>W = [[1, 2, 2], [0, 1, 1]], b = [0, 0, 0]\<rparr>"
  have p: "p_y_given_x ?c [[1, 0]] =
      [[exp 1 / (exp 1 + exp 2 + exp 2), exp 2 / (exp 1 + exp 2 + exp 2),
        exp 2 / (exp 1 + exp 2 + exp 2)]]"
    by (simp add: p_y_given_x_def softmax_def add_row_def dot_def ncols_def
        upt_rec [of 0] upt_rec [of "Suc _"] numeral_2_eq_2 numeral_3_eq_3 add.assoc)
  have lt: "exp (1::real) < exp 2" by simp
  have pos: "0 < exp (1::real) + exp 2 + exp 2" by (simp add: add_pos_pos)
  have y: "y_pred ?c [[1, 0]] = [1]"
    using lt pos by (simp add: y_pred_def T_argmax_def argmax_def p divide_strict_right_mono)
  from y_pred_first_maximum [of 0 "[[1, 0]]" ?c] y show ?thesis
    by (simp add: ncols_def p)
qed

text \<open>
  C7. For a classifier with a bias of the width of \<open>W\<close> and labels that are columns of
  \<open>W\<close>, one for each of the first rows of the input, every entry of \<open>p_y_given_x\<close> is
  positive and \<open>negative_log_likelihood\<close> is the mean over the labelled rows \<open>i\<close> of
  \<open>- log(p_y_given_x[i, y[i]])\<close>.
\<close>

theorem negative_log_likelihood_mean:
  assumes "length y \<le> length input" and "length (b self) = ncols (W self)"
    and "\<forall>i<length y. 0 \<le> y ! i \<and> y ! i < int (ncols (W self))"
  shows "(\<forall>i<length input. \<forall>j<ncols (W self). 0 < p_y_given_x self input ! i ! j)
    \<and> negative_log_likelihood self input y =
        T_mean (map (\<lambda>i. - ln (p_y_given_x self input ! i ! nat (y ! i))) [0..<length y])"
proof -
  have "\<forall>i<length input. \<forall>j<ncols (W self). 0 < p_y_given_x self input ! i ! j"
    using assms(2) by (simp add: p_y_given_x_bounds)
  with nll_as_mean [OF assms] show ?thesis by blast
qed

theorem negative_log_likelihood_mean_witness:
  "negative_log_likelihood \<lparr>W = [[0, 0], [0, 0]], b = [0, 0]\<rparr> [[1, 1]] [0] = ln 2"
proof -
  have p: "p_y_given_x \<lparr>W = [[0, 0], [0, 0]], b = [0, 0]\<rparr> [[1, 1]] = [[1 / 2, 1 / 2]]"
    by (simp add: p_y_given_x_def softmax_def add_row_def dot_def ncols_def
        upt_rec [of 0] upt_rec [of "Suc _"] numeral_2_eq_2)
  from negative_log_likelihood_mean [of "[0]" "[[1, 1]]" "\<lparr>W = [[0, 0], [0, 0]], b = [0, 0]\<rparr>"]
  show ?thesis by (simp add: ncols_def p T_mean_def ln_div)
qed

text \<open>
  C8. For a label variable of another rank than \<open>y_pred\<close> (rank 2 or rank 0 here, with an
  integer dtype) \<open>errors\<close> does not end in the \<open>TypeError\<close> its \<open>raise\<close> statement
  names: building the exception reads the unbound name \<open>target\<close>, and the call ends in
  \<open>NameError\<close>.
\<close>

theorem errors_rank_mismatch:
  "errors self input \<lparr>ndim = 2, dtype = ''int32''\<rparr> y = Inl (NameError ''target'')
   \<and> errors self input \<lparr>ndim = 2, dtype = ''int32''\<rparr> y \<noteq> Inl TypeError
   \<and> errors self input \<lparr>ndim = 0, dtype = ''int32''\<rparr> y = Inl (NameError ''target'')"
  by (simp add: errors_def y_pred_type_def)



end
